theory Spec2Isabelle
  imports Main "HOL-Library.AList"
begin

section \<open>Python values and built-ins\<close>

text \<open>
  Product records are Python dictionaries produced by \<^verbatim>\<open>json.load\<close>; nothing enforces
  a schema, so every field may hold any JSON value.  A dictionary is kept as the list of
  its items in insertion order.  JSON numbers with a fraction or an exponent (Python
  floats) are not part of this embedding; strings are sequences of \<^typ>\<open>char\<close>.
\<close>

datatype json =
    JNull
  | JBool bool
  | JInt int
  | JStr string
  | JList "json list"
  | JObj "(string \<times> json) list"

text \<open>The exceptions the modelled functions raise, as values.\<close>

datatype py_error =
    FileNotFoundError
  | OSError
  | JSONDecodeError
  | ValueError
  | TypeError
  | AttributeError
  | KeyError
  | IndexError
  | UnicodeDecodeError

text \<open>Sequencing of computations that may raise: the first exception propagates.\<close>

definition bind_err :: "py_error + 'a \<Rightarrow> ('a \<Rightarrow> py_error + 'b) \<Rightarrow> py_error + 'b" where
  "bind_err m f = (case m of Inl e \<Rightarrow> Inl e | Inr x \<Rightarrow> f x)"

text \<open>A loop that evaluates \<open>f\<close> on each element in order and collects the values.\<close>

fun map_err :: "('a \<Rightarrow> py_error + 'b) \<Rightarrow> 'a list \<Rightarrow> py_error + 'b list" where
  "map_err f [] = Inr []"
| "map_err f (x # xs) =
     (case f x of
        Inl e \<Rightarrow> Inl e
      | Inr y \<Rightarrow> (case map_err f xs of Inl e \<Rightarrow> Inl e | Inr ys \<Rightarrow> Inr (y # ys)))"

text \<open>
  Library functions that the code calls and that are not part of the repository.  They
  are parameters of the model: \<^verbatim>\<open>repr\<close> of a string, \<^verbatim>\<open>str.title\<close>,
  \<^verbatim>\<open>str.lower\<close>, \<^verbatim>\<open>str.strip\<close>, \<^verbatim>\<open>urlparse(url).path\<close> and \<^verbatim>\<open>urljoin\<close> (\<open>None\<close> when
  they raise), whether \<^verbatim>\<open>BeautifulSoup(text, 'html.parser')\<close> returns, and
  \<^verbatim>\<open>soup.select(selector)\<close> on a parsed page (\<open>None\<close> when it raises).  An HTML element
  is reduced to its string attributes and its text.
\<close>

record element =
  el_attrs :: "(string \<times> string) list"
  el_text :: string

record pylib =
  repr_str :: "string \<Rightarrow> string"
  str_title :: "string \<Rightarrow> string"
  str_lower :: "string \<Rightarrow> string"
  str_strip :: "string \<Rightarrow> string"
  url_path :: "string \<Rightarrow> string option"
  urljoin :: "string \<Rightarrow> string \<Rightarrow> string option"
  html_parses :: "string \<Rightarrow> bool"
  soup_select :: "string \<Rightarrow> string \<Rightarrow> element list option"

text \<open>Truth value of an object, as \<^verbatim>\<open>if x:\<close> and \<^verbatim>\<open>not x\<close> test it.\<close>

fun truthy :: "json \<Rightarrow> bool" where
  "truthy JNull = False"
| "truthy (JBool b) = b"
| "truthy (JInt n) = (n \<noteq> 0)"
| "truthy (JStr s) = (s \<noteq> [])"
| "truthy (JList xs) = (xs \<noteq> [])"
| "truthy (JObj kvs) = (kvs \<noteq> [])"

text \<open>\<^verbatim>\<open>d.get(key, default)\<close> on a dictionary.\<close>

definition dict_get :: "(string \<times> json) list \<Rightarrow> string \<Rightarrow> json \<Rightarrow> json" where
  "dict_get d key dflt = (case map_of d key of None \<Rightarrow> dflt | Some v \<Rightarrow> v)"

text \<open>\<^verbatim>\<open>len(x)\<close>: defined on sequences, strings and dictionaries.\<close>

fun py_len :: "json \<Rightarrow> py_error + nat" where
  "py_len (JList xs) = Inr (length xs)"
| "py_len (JStr s) = Inr (length s)"
| "py_len (JObj kvs) = Inr (length kvs)"
| "py_len _ = Inl TypeError"

text \<open>The elements \<^verbatim>\<open>for x in v\<close> and \<^verbatim>\<open>enumerate(v)\<close> go through: the elements of a
  list, the characters of a string, the keys of a dictionary.\<close>

fun py_iter :: "json \<Rightarrow> py_error + json list" where
  "py_iter (JList xs) = Inr xs"
| "py_iter (JStr s) = Inr (map (\<lambda>c. JStr [c]) s)"
| "py_iter (JObj kvs) = Inr (map (\<lambda>kv. JStr (fst kv)) kvs)"
| "py_iter _ = Inl TypeError"

text \<open>\<^verbatim>\<open>v[i]\<close> for a non-negative integer \<open>i\<close>; the keys of a JSON dictionary are
  strings, so an integer is never among them.\<close>

fun py_getitem :: "json \<Rightarrow> nat \<Rightarrow> py_error + json" where
  "py_getitem (JList xs) i = (if i < length xs then Inr (xs ! i) else Inl IndexError)"
| "py_getitem (JStr s) i = (if i < length s then Inr (JStr [s ! i]) else Inl IndexError)"
| "py_getitem (JObj kvs) i = Inl KeyError"
| "py_getitem _ i = Inl TypeError"

text \<open>Decimal rendering of integers.\<close>

definition digit_char :: "nat \<Rightarrow> char" where
  "digit_char d = ''0123456789'' ! d"

fun str_nat :: "nat \<Rightarrow> string" where
  "str_nat n = (if n < 10 then [digit_char n] else str_nat (n div 10) @ [digit_char (n mod 10)])"

declare str_nat.simps [simp del]

definition str_int :: "int \<Rightarrow> string" where
  "str_int i = (if i < 0 then CHR ''-'' # str_nat (nat (- i)) else str_nat (nat i))"

text \<open>\<^verbatim>\<open>sep.join(parts)\<close> on strings.\<close>

fun join :: "string \<Rightarrow> string list \<Rightarrow> string" where
  "join sep [] = []"
| "join sep [x] = x"
| "join sep (x # y # ys) = x @ sep @ join sep (y # ys)"

text \<open>\<^verbatim>\<open>repr(v)\<close> and \<^verbatim>\<open>str(v)\<close>, which is also what an f-string substitutes.\<close>

fun py_repr :: "pylib \<Rightarrow> json \<Rightarrow> string" where
  "py_repr L JNull = ''None''"
| "py_repr L (JBool b) = (if b then ''True'' else ''False'')"
| "py_repr L (JInt i) = str_int i"
| "py_repr L (JStr s) = repr_str L s"
| "py_repr L (JList xs) = ''['' @ join '', '' (map (py_repr L) xs) @ '']''"
| "py_repr L (JObj kvs) =
     ''{'' @ join '', '' (map (\<lambda>kv. repr_str L (fst kv) @ '': '' @ py_repr L (snd kv)) kvs) @ ''}''"

definition py_str :: "pylib \<Rightarrow> json \<Rightarrow> string" where
  "py_str L v = (case v of JStr s \<Rightarrow> s | _ \<Rightarrow> py_repr L v)"

text \<open>\<^verbatim>\<open>sep.join(values)\<close>: raises \<^verbatim>\<open>TypeError\<close> on an item that is not a string.\<close>

definition py_join :: "string \<Rightarrow> json list \<Rightarrow> py_error + string" where
  "py_join sep vs =
     bind_err (map_err (\<lambda>v. case v of JStr s \<Rightarrow> Inr s | _ \<Rightarrow> Inl TypeError) vs)
       (\<lambda>parts. Inr (join sep parts))"

text \<open>A method that only strings have, called on an arbitrary value.\<close>

definition str_method :: "(string \<Rightarrow> string) \<Rightarrow> json \<Rightarrow> py_error + string" where
  "str_method f v = (case v of JStr s \<Rightarrow> Inr (f s) | _ \<Rightarrow> Inl AttributeError)"

text \<open>\<^verbatim>\<open>s.replace(' ', '-')\<close>\<close>

definition replace_spaces :: "string \<Rightarrow> string" where
  "replace_spaces s = map (\<lambda>c. if c = CHR '' '' then CHR ''-'' else c) s"

text \<open>\<^verbatim>\<open>s.endswith(suffix)\<close>\<close>

definition endswith :: "string \<Rightarrow> string \<Rightarrow> bool" where
  "endswith s suffix =
     (length suffix \<le> length s \<and> drop (length s - length suffix) s = suffix)"

text \<open>
  Keys of a Python dictionary: lists and dictionaries are unhashable (\<open>None\<close>), and
  \<^verbatim>\<open>True\<close> and \<^verbatim>\<open>False\<close> are the same keys as \<^verbatim>\<open>1\<close> and \<^verbatim>\<open>0\<close>.
\<close>

fun py_key :: "json \<Rightarrow> json option" where
  "py_key (JList xs) = None"
| "py_key (JObj kvs) = None"
| "py_key (JBool b) = Some (JInt (if b then 1 else 0))"
| "py_key v = Some v"

text \<open>\<^verbatim>\<open>xs[:n]\<close>; a negative bound counts from the end.\<close>

definition slice_to :: "int \<Rightarrow> 'a list \<Rightarrow> 'a list" where
  "slice_to n xs = (if 0 \<le> n then take (nat n) xs else take (length xs - nat (- n)) xs)"

text \<open>\<^verbatim>\<open>os.path.basename\<close> and \<^verbatim>\<open>os.path.join\<close> of two components (POSIX).\<close>

definition basename :: "string \<Rightarrow> string" where
  "basename path = rev (takeWhile (\<lambda>c. c \<noteq> CHR ''/'') (rev path))"

definition path_join :: "string \<Rightarrow> string \<Rightarrow> string" where
  "path_join a b =
     (if b \<noteq> [] \<and> hd b = CHR ''/'' then b
      else if a = [] \<or> last a = CHR ''/'' then a @ b
      else a @ ''/'' @ b)"

section \<open>The outside world\<close>

text \<open>
  The part of the file system and of the network that the code touches.  \<open>world\<close> is
  what the code changes: the directories it has created, the files it has written (a CSV
  file is kept as the rows of cells handed to the CSV writer, before quoting), and the
  URLs it has requested, oldest first.  \<open>env\<close> is what the code cannot control: whether
  \<^verbatim>\<open>os.makedirs\<close> and \<^verbatim>\<open>open\<close> for writing succeed, and what the \<open>n\<close>-th HTTP request of
  the run yields for its URL: no usable response (\<^verbatim>\<open>requests\<close> raises: timeout,
  connection error, non-2xx status), a complete body, or a body whose transfer breaks
  after a part of it has arrived.
\<close>

datatype file_content = Csv "string list list" | Bytes string

datatype http_result = NoResponse | Complete string | Broken string

record world =
  dirs :: "string set"
  files :: "string \<Rightarrow> file_content option"
  requests :: "string list"

record env =
  can_mkdir :: "string \<Rightarrow> bool"
  can_open :: "string \<Rightarrow> bool"
  http_get :: "nat \<Rightarrow> string \<Rightarrow> http_result"

section \<open>Record Loader (\<^verbatim>\<open>json_utils/loader.py\<close>)\<close>

text \<open>
  What \<^verbatim>\<open>open\<close> followed by \<^verbatim>\<open>json.load\<close> does on one directory entry: it raises an
  exception or returns the parsed value.  A file that fails to parse as JSON is
  \<open>Raises JSONDecodeError\<close>; an entry that cannot be opened is \<open>Raises OSError\<close>, one that
  is not valid UTF-8 is \<open>Raises UnicodeDecodeError\<close>, and so on.  The loader has one
  \<^verbatim>\<open>except\<close> clause for \<^verbatim>\<open>json.JSONDecodeError\<close> and one for every other exception; both
  log and re-raise the exception they caught.
\<close>

datatype file_state = Raises py_error | Parsed json

text \<open>
  The state of the path given to the loader: it does not exist, it exists but
  \<^verbatim>\<open>os.listdir\<close> raises on it (an \<^verbatim>\<open>OSError\<close>), or it is a directory whose entries
  \<^verbatim>\<open>os.listdir\<close> returns in the given order.
\<close>

datatype folder = Missing | NotListable | Dir "(string \<times> file_state) list"

text \<open>The \<^verbatim>\<open>for filename in os.listdir(folder_path)\<close> loop, with \<open>all_products\<close> as
  accumulator; both \<^verbatim>\<open>except\<close> clauses re-raise.\<close>

fun load_entries :: "(string \<times> file_state) list \<Rightarrow> json list \<Rightarrow> py_error + json list" where
  "load_entries [] all_products = Inr all_products"
| "load_entries ((filename, st) # rest) all_products =
     (if endswith filename ''.json'' then
        (case st of
           Raises e \<Rightarrow> Inl e
         | Parsed data \<Rightarrow>
             (case data of
                JList xs \<Rightarrow> load_entries rest (all_products @ xs)
              | JObj kvs \<Rightarrow> load_entries rest (all_products @ [JObj kvs])
              | _ \<Rightarrow> load_entries rest all_products))
      else load_entries rest all_products)"

definition load_json_files :: "folder \<Rightarrow> py_error + json list" where
  "load_json_files folder_path =
     (case folder_path of
        Missing \<Rightarrow> Inl FileNotFoundError
      | NotListable \<Rightarrow> Inl OSError
      | Dir entries \<Rightarrow> load_entries entries [])"

text \<open>What one parsed file contributes to the aggregate result.\<close>

fun contribution :: "json \<Rightarrow> json list" where
  "contribution (JList xs) = xs"
| "contribution (JObj kvs) = [JObj kvs]"
| "contribution _ = []"

text \<open>The entries the loader opens, and what each of them holds.\<close>

definition json_entries :: "(string \<times> file_state) list \<Rightarrow> file_state list" where
  "json_entries entries = map snd (filter (\<lambda>e. endswith (fst e) ''.json'') entries)"

fun parsed_value :: "file_state \<Rightarrow> json list" where
  "parsed_value (Parsed data) = contribution data"
| "parsed_value _ = []"

fun is_parsed :: "file_state \<Rightarrow> bool" where
  "is_parsed (Parsed data) = True"
| "is_parsed _ = False"

section \<open>Flattener (\<^verbatim>\<open>csv_utils/generator.py\<close>)\<close>

text \<open>\<^verbatim>\<open>max_images = max(max_images, len(p.get("image_urls", [])))\<close> over the products;
  \<^verbatim>\<open>p.get\<close> raises \<^verbatim>\<open>AttributeError\<close> on a product that is not a dictionary.\<close>

fun max_images_loop :: "json list \<Rightarrow> nat \<Rightarrow> py_error + nat" where
  "max_images_loop [] max_images = Inr max_images"
| "max_images_loop (p # ps) max_images =
     (case p of
        JObj d \<Rightarrow>
          (case py_len (dict_get d ''image_urls'' (JList [])) of
             Inl e \<Rightarrow> Inl e
           | Inr n \<Rightarrow> max_images_loop ps (max max_images n))
      | _ \<Rightarrow> Inl AttributeError)"

definition static_fields :: "string list" where
  "static_fields =
     [''brand'', ''name'', ''description'', ''type'', ''category'', ''weight_options'',
      ''THC_percent'', ''available_for_pickup'', ''available_for_delivery'',
      ''aggregate_rating'', ''review_count'']"

definition weights_keys :: "string list" where
  "weights_keys = [''gram'', ''eighth_ounce'', ''quarter_ounce'', ''half_ounce'', ''ounce'']"

definition price_fields :: "string list" where
  "price_fields = concat (map (\<lambda>w. [''price_'' @ w, ''discounted_price_'' @ w]) weights_keys)"

text \<open>\<^verbatim>\<open>f"image_{i}"\<close>\<close>

definition image_field :: "nat \<Rightarrow> string" where
  "image_field i = ''image_'' @ str_nat i"

definition csv_fields :: "nat \<Rightarrow> string list" where
  "csv_fields max_images =
     static_fields @ price_fields @ map image_field [1..<max_images + 1] @
     [''tags'', ''product_link'']"

text \<open>Weight options: \<^verbatim>\<open>" - ".join([w.title() for w in p.get("available_weights", [])])\<close>\<close>

definition weight_options_of :: "pylib \<Rightarrow> (string \<times> json) list \<Rightarrow> py_error + string" where
  "weight_options_of L p =
     bind_err (py_iter (dict_get p ''available_weights'' (JList [])))
       (\<lambda>ws. bind_err (map_err (str_method (str_title L)) ws)
         (\<lambda>titles. Inr (join '' - '' titles)))"

text \<open>THC percent: the first potency of \<^verbatim>\<open>inventory_potencies\<close>.\<close>

definition thc_percent_of :: "pylib \<Rightarrow> (string \<times> json) list \<Rightarrow> py_error + string" where
  "thc_percent_of L p =
     (if truthy (dict_get p ''inventory_potencies'' JNull) then
        bind_err (py_getitem (dict_get p ''inventory_potencies'' JNull) 0)
          (\<lambda>potency. case potency of
             JObj d \<Rightarrow> Inr (py_str L (dict_get d ''thc_potency'' (JStr '''')) @ ''%'')
           | _ \<Rightarrow> Inl AttributeError)
      else Inr '''')"

text \<open>Prices: \<^verbatim>\<open>f"${p.get(key, '')}" if p.get(key) else ""\<close>\<close>

definition price_cell :: "pylib \<Rightarrow> (string \<times> json) list \<Rightarrow> string \<Rightarrow> string" where
  "price_cell L p key =
     (if truthy (dict_get p key JNull) then ''$'' @ py_str L (dict_get p key (JStr ''''))
      else '''')"

definition row_prices :: "pylib \<Rightarrow> (string \<times> json) list \<Rightarrow> (string \<times> json) list" where
  "row_prices L p = map (\<lambda>key. (key, JStr (price_cell L p key))) price_fields"

text \<open>Images: \<^verbatim>\<open>image_urls[i] if i < len(image_urls) else ""\<close> for \<open>i\<close> in
  \<^verbatim>\<open>range(max_images)\<close>.\<close>

definition image_col :: "json \<Rightarrow> nat \<Rightarrow> py_error + string \<times> json" where
  "image_col image_urls i =
     bind_err (py_len image_urls)
       (\<lambda>n. if i < n then
               bind_err (py_getitem image_urls i) (\<lambda>v. Inr (image_field (i + 1), v))
             else Inr (image_field (i + 1), JStr ''''))"

definition image_cols :: "nat \<Rightarrow> json \<Rightarrow> py_error + (string \<times> json) list" where
  "image_cols max_images image_urls = map_err (image_col image_urls) [0..<max_images]"

text \<open>Tags from brand specials: the loop over
  \<^verbatim>\<open>p["brand_special_prices"].values()\<close>.\<close>

fun tags_loop :: "json list \<Rightarrow> json list \<Rightarrow> py_error + json list" where
  "tags_loop [] tags = Inr tags"
| "tags_loop (sp # sps) tags =
     (if truthy sp then
        (case sp of
           JObj d \<Rightarrow>
             (if truthy (dict_get d ''discount_label'' JNull)
              then tags_loop sps (tags @ [dict_get d ''discount_label'' JNull])
              else tags_loop sps tags)
         | _ \<Rightarrow> Inl AttributeError)
      else tags_loop sps tags)"

definition tags_of :: "(string \<times> json) list \<Rightarrow> py_error + string" where
  "tags_of p =
     bind_err
       (if truthy (dict_get p ''brand_special_prices'' JNull) then
          (case dict_get p ''brand_special_prices'' JNull of
             JObj specials \<Rightarrow> tags_loop (map snd specials) []
           | _ \<Rightarrow> Inl AttributeError)
        else Inr [])
       (\<lambda>tags. py_join '', '' tags)"

text \<open>Product link.\<close>

definition product_link_of :: "pylib \<Rightarrow> (string \<times> json) list \<Rightarrow> py_error + string" where
  "product_link_of L p =
     bind_err (str_method replace_spaces (dict_get p ''brand'' (JStr '''')))
       (\<lambda>brand. bind_err (str_method replace_spaces (dict_get p ''name'' (JStr '''')))
         (\<lambda>name. Inr (''/shop/menu/products/'' @ py_str L (dict_get p ''product_id'' JNull) @
              ''/'' @ str_lower L brand @ ''-'' @ str_lower L name)))"

text \<open>A dictionary display \<^verbatim>\<open>{k1: v1, ..., **d, ...}\<close>: a later item replaces the value of
  an equal earlier key.\<close>

definition dict_of_items :: "(string \<times> json) list \<Rightarrow> (string \<times> json) list" where
  "dict_of_items items = foldl (\<lambda>d kv. AList.update (fst kv) (snd kv) d) [] items"

text \<open>The first eleven items of the \<^verbatim>\<open>row\<close> dictionary.\<close>

definition fixed_columns :: "(string \<times> json) list \<Rightarrow> string \<Rightarrow> string \<Rightarrow> (string \<times> json) list" where
  "fixed_columns p weight_options thc_percent =
     [(''brand'', dict_get p ''brand'' (JStr '''')),
      (''name'', dict_get p ''name'' (JStr '''')),
      (''description'', dict_get p ''description'' (JStr '''')),
      (''type'', dict_get p ''type'' (JStr '''')),
      (''category'', dict_get p ''category'' (JStr '''')),
      (''weight_options'', JStr weight_options),
      (''THC_percent'', JStr thc_percent),
      (''available_for_pickup'', dict_get p ''available_for_pickup'' (JStr '''')),
      (''available_for_delivery'', dict_get p ''available_for_delivery'' (JStr '''')),
      (''aggregate_rating'', dict_get p ''aggregate_rating'' (JStr '''')),
      (''review_count'', dict_get p ''review_count'' (JStr ''''))]"

text \<open>The body of the \<^verbatim>\<open>for p in products\<close> loop that builds one row.\<close>

definition make_row :: "pylib \<Rightarrow> nat \<Rightarrow> json \<Rightarrow> py_error + (string \<times> json) list" where
  "make_row L max_images product =
     (case product of
        JObj p \<Rightarrow>
          bind_err (weight_options_of L p) (\<lambda>weight_options.
          bind_err (thc_percent_of L p) (\<lambda>thc_percent.
          bind_err (image_cols max_images (dict_get p ''image_urls'' (JList []))) (\<lambda>image_columns.
          bind_err (tags_of p) (\<lambda>tags_str.
          bind_err (product_link_of L p) (\<lambda>product_link.
            Inr (dict_of_items
             (fixed_columns p weight_options thc_percent @
              row_prices L p @ image_columns @
              [(''tags'', JStr tags_str), (''product_link'', JStr product_link)])))))))
      | _ \<Rightarrow> Inl AttributeError)"

text \<open>
  \<^verbatim>\<open>csv.DictWriter\<close>: the cells of a row are \<^verbatim>\<open>row.get(field, "")\<close> in the order of the
  field names; the writer renders \<^verbatim>\<open>None\<close> as the empty string, a string as itself and
  any other value with \<^verbatim>\<open>str\<close>.  It raises on a row with a key that is not a field
  name, which no row built by \<open>make_row\<close> has (lemma \<open>make_row_keys\<close> below), so that
  check is not part of the model.
\<close>

definition csv_cell :: "pylib \<Rightarrow> json \<Rightarrow> string" where
  "csv_cell L v = (case v of JNull \<Rightarrow> '''' | _ \<Rightarrow> py_str L v)"

definition dict_writer_row :: "pylib \<Rightarrow> string list \<Rightarrow> (string \<times> json) list \<Rightarrow> string list" where
  "dict_writer_row L fieldnames row = map (\<lambda>f. csv_cell L (dict_get row f (JStr ''''))) fieldnames"

text \<open>
  \<open>generate_csv\<close>: the result is the raised exception or the returned path, together
  with the world it leaves.  The exception handler of the source logs and re-raises.
\<close>

definition generate_csv ::
  "pylib \<Rightarrow> env \<Rightarrow> world \<Rightarrow> json list \<Rightarrow> string \<Rightarrow> (py_error + string) \<times> world" where
  "generate_csv L E w products output_file =
     (if products = [] then (Inl ValueError, w)
      else
        (case max_images_loop products 0 of
           Inl e \<Rightarrow> (Inl e, w)
         | Inr max_images \<Rightarrow>
             (case map_err (make_row L max_images) products of
                Inl e \<Rightarrow> (Inl e, w)
              | Inr csv_rows \<Rightarrow>
                  if can_open E output_file then
                    (Inr output_file,
                     w\<lparr>files := (files w)(output_file \<mapsto>
                         Csv (csv_fields max_images #
                              map (dict_writer_row L (csv_fields max_images)) csv_rows))\<rparr>)
                  else (Inl OSError, w))))"

text \<open>The number of images of a record, \<^verbatim>\<open>len(p.get("image_urls", []))\<close>, as the claims
  about the image columns speak of it.\<close>

definition image_count :: "json \<Rightarrow> nat" where
  "image_count p =
     (case p of
        JObj d \<Rightarrow> (case py_len (dict_get d ''image_urls'' (JList [])) of Inr n \<Rightarrow> n | Inl e \<Rightarrow> 0)
      | _ \<Rightarrow> 0)"

text \<open>A library instance for evaluating the model on concrete inputs: strings are left as
  they are, a URL is its own path, and pages have no elements.\<close>

definition sample_lib :: pylib where
  "sample_lib =
     \<lparr>repr_str = (\<lambda>s. s), str_title = (\<lambda>s. s), str_lower = (\<lambda>s. s), str_strip = (\<lambda>s. s),
      url_path = (\<lambda>u. Some u), urljoin = (\<lambda>b u. Some (b @ u)), html_parses = (\<lambda>t. True),
      soup_select = (\<lambda>t s. Some [])\<rparr>"

definition empty_world :: world where
  "empty_world = \<lparr>dirs = {}, files = (\<lambda>p. None), requests = []\<rparr>"

text \<open>The image columns of a header row: the fields named \<^verbatim>\<open>image_...\<close>.\<close>

definition image_columns :: "string list \<Rightarrow> string list" where
  "image_columns header = filter (\<lambda>f. take 6 f = ''image_'') header"

definition sample_env :: env where
  "sample_env =
     \<lparr>can_mkdir = (\<lambda>d. True), can_open = (\<lambda>p. True), http_get = (\<lambda>n u. NoResponse)\<rparr>"

definition sample_products :: "json list" where
  "sample_products =
     [JObj [(''product_id'', JStr ''1''), (''brand'', JStr ''Acme''), (''name'', JStr ''A B''),
            (''image_urls'', JList [JStr ''http://x/a.jpg'', JStr ''http://x/b.jpg'']),
            (''inventory_potencies'', JList [JObj [(''thc_potency'', JInt 18)]]),
            (''price_gram'', JInt 5)],
      JObj [(''product_id'', JStr ''2''), (''image_urls'', JList [JStr ''http://x/c.jpg''])]]"

section \<open>Image Fetcher (\<^verbatim>\<open>image_utils/downloader.py\<close>)\<close>

text \<open>
  \<open>download_image\<close> returns the pair \<^verbatim>\<open>(url, local_path)\<close> and the world it leaves.  Both
  \<^verbatim>\<open>except\<close> clauses return \<^verbatim>\<open>(url, "")\<close>: \<^verbatim>\<open>os.makedirs\<close> or \<^verbatim>\<open>urlparse\<close> raising
  (\<^verbatim>\<open>urlparse\<close> raises on every value that is not a string), the request failing, the
  file not opening, or the transfer breaking while the chunks are written.
\<close>

definition download_image ::
  "pylib \<Rightarrow> env \<Rightarrow> world \<Rightarrow> json \<Rightarrow> string \<Rightarrow> json \<Rightarrow> nat \<Rightarrow> (json \<times> string) \<times> world" where
  "download_image L E w url output_dir product_id index =
     (if \<not> truthy url then ((url, ''''), w)
      else if \<not> can_mkdir E output_dir then ((url, ''''), w)
      else
        (let w1 = w\<lparr>dirs := insert output_dir (dirs w)\<rparr> in
         case url of
           JStr u \<Rightarrow>
             (case url_path L u of
                None \<Rightarrow> ((url, ''''), w1)
              | Some path \<Rightarrow>
                  (let filename = basename path;
                       filename =
                         (if filename = [] \<or> CHR ''.'' \<notin> set filename
                          then ''image_'' @ py_str L product_id @ ''_'' @ str_nat index @ ''.jpg''
                          else filename);
                       filename =
                         (if truthy product_id then py_str L product_id @ ''_'' @ filename
                          else filename);
                       output_path = path_join output_dir filename;
                       w2 = w1\<lparr>requests := requests w1 @ [u]\<rparr>
                   in case http_get E (length (requests w1)) u of
                        NoResponse \<Rightarrow> ((url, ''''), w2)
                      | Complete body \<Rightarrow>
                          if can_open E output_path
                          then ((url, output_path),
                                w2\<lparr>files := (files w2)(output_path \<mapsto> Bytes body)\<rparr>)
                          else ((url, ''''), w2)
                      | Broken part \<Rightarrow>
                          if can_open E output_path
                          then ((url, ''''),
                                w2\<lparr>files := (files w2)(output_path \<mapsto> Bytes part)\<rparr>)
                          else ((url, ''''), w2)))
         | _ \<Rightarrow> ((url, ''''), w1)))"

text \<open>
  The download tasks \<^verbatim>\<open>(url, product_id, i)\<close> of one product, in the order of
  \<^verbatim>\<open>enumerate(image_urls)\<close> (the output directory is the same for all tasks and is passed
  separately).
\<close>

definition product_tasks :: "json \<Rightarrow> py_error + (json \<times> json \<times> nat) list" where
  "product_tasks product =
     (case product of
        JObj p \<Rightarrow>
          bind_err (py_iter (dict_get p ''image_urls'' (JList [])))
            (\<lambda>image_urls.
               Inr (map (\<lambda>(i, url). (url, dict_get p ''product_id'' (JStr ''unknown''), i))
                      (enumerate 0 image_urls)))
      | _ \<Rightarrow> Inl AttributeError)"

definition download_tasks :: "json list \<Rightarrow> py_error + (json \<times> json \<times> nat) list" where
  "download_tasks products =
     bind_err (map_err product_tasks products) (\<lambda>tasks. Inr (concat tasks))"

text \<open>
  The worker pool.  Every task runs \<open>download_image\<close> once and its result is read with
  \<^verbatim>\<open>future.result()\<close> in submission order.  The tasks are run here one after the other in
  that order; the interleaving of the worker threads is not modelled.  The outcome of a
  download is decided by \<open>env\<close>, request by request, so every combination of successes
  and failures of the individual downloads is covered.  The result pairs each task with
  the local path its download returned.
\<close>

fun run_tasks ::
  "pylib \<Rightarrow> env \<Rightarrow> world \<Rightarrow> string \<Rightarrow> (json \<times> json \<times> nat) list \<Rightarrow>
   ((json \<times> json \<times> nat) \<times> string) list \<times> world" where
  "run_tasks L E w output_dir [] = ([], w)"
| "run_tasks L E w output_dir ((url, product_id, i) # tasks) =
     (case download_image L E w url output_dir product_id i of
        ((u, local_path), w1) \<Rightarrow>
          (case run_tasks L E w1 output_dir tasks of
             (outs, w2) \<Rightarrow> (((url, product_id, i), local_path) # outs, w2)))"

text \<open>
  The loop over the futures that fills \<^verbatim>\<open>results\<close>, a dictionary from product id to a
  dictionary from URL to local path.  \<open>record_result\<close> is the body of the loop for one
  task and the local path it returned.  A \<^verbatim>\<open>TypeError\<close> for an unhashable key is caught
  by the \<^verbatim>\<open>except\<close> clause inside the loop: the task is skipped (but
  \<^verbatim>\<open>results[product_id] = {}\<close> has already happened when it is the URL that is
  unhashable).
\<close>

fun record_result ::
  "(json \<times> json \<times> nat) \<times> string \<Rightarrow> (json \<times> (json \<times> string) list) list \<Rightarrow>
   (json \<times> (json \<times> string) list) list" where
  "record_result ((url, product_id, i), local_path) results =
     (if local_path \<noteq> [] then
        (case py_key product_id of
           None \<Rightarrow> results
         | Some pid \<Rightarrow>
             (let paths = (case map_of results pid of None \<Rightarrow> [] | Some m \<Rightarrow> m) in
              case py_key url of
                None \<Rightarrow> AList.update pid paths results
              | Some u \<Rightarrow> AList.update pid (AList.update u local_path paths) results))
      else results)"

fun collect_results ::
  "((json \<times> json \<times> nat) \<times> string) list \<Rightarrow> (json \<times> (json \<times> string) list) list \<Rightarrow>
   (json \<times> (json \<times> string) list) list" where
  "collect_results [] results = results"
| "collect_results (out # rest) results = collect_results rest (record_result out results)"

text \<open>The body of the final loop: a product whose id is a key of \<^verbatim>\<open>results\<close> gets
  \<^verbatim>\<open>local_image_paths\<close>; the \<^verbatim>\<open>TypeError\<close> of an unhashable product id or URL is not
  caught here.\<close>

definition update_product :: "(json \<times> (json \<times> string) list) list \<Rightarrow> json \<Rightarrow> py_error + json" where
  "update_product results product =
     (case product of
        JObj p \<Rightarrow>
          (case py_key (dict_get p ''product_id'' (JStr ''unknown'')) of
             None \<Rightarrow> Inl TypeError
           | Some pid \<Rightarrow>
               (case map_of results pid of
                  None \<Rightarrow> Inr product
                | Some paths \<Rightarrow>
                    bind_err (py_iter (dict_get p ''image_urls'' (JList [])))
                      (\<lambda>image_urls.
                         bind_err
                           (map_err
                              (\<lambda>url. case py_key url of
                                        None \<Rightarrow> Inl TypeError
                                      | Some u \<Rightarrow>
                                          Inr (JStr (case map_of paths u of
                                                       None \<Rightarrow> ''''
                                                     | Some local_path \<Rightarrow> local_path)))
                              image_urls)
                           (\<lambda>local_image_paths.
                              Inr (JObj (AList.update ''local_image_paths''
                                           (JList local_image_paths) p))))))
      | _ \<Rightarrow> Inl AttributeError)"

text \<open>
  \<open>download_product_images\<close>: the raised exception or the returned products, and the
  world left.  \<^verbatim>\<open>ThreadPoolExecutor\<close> raises \<^verbatim>\<open>ValueError\<close> unless \<^verbatim>\<open>max_workers\<close> is
  positive.
\<close>

definition download_product_images ::
  "pylib \<Rightarrow> env \<Rightarrow> world \<Rightarrow> json list \<Rightarrow> string \<Rightarrow> int \<Rightarrow> (py_error + json list) \<times> world" where
  "download_product_images L E w products output_dir max_workers =
     (if products = [] then (Inr products, w)
      else
        (case download_tasks products of
           Inl e \<Rightarrow> (Inl e, w)
         | Inr tasks \<Rightarrow>
             if max_workers \<le> 0 then (Inl ValueError, w)
             else
               (case run_tasks L E w output_dir tasks of
                  (outs, w1) \<Rightarrow>
                    (map_err (update_product (collect_results outs [])) products, w1))))"

text \<open>
  Notions the claims about the fetcher speak of.  \<open>batch_outcomes\<close> are the download
  tasks of a batch, each with the local path its download returned (empty for a failed or
  skipped download).  A product key is downloaded when some task of a product with that
  key returned a path; \<open>successful_paths\<close> are the paths returned, in task order, for a
  URL under a product key; \<open>recorded_path\<close> is the last of them, or the empty string.
\<close>

definition batch_outcomes ::
  "pylib \<Rightarrow> env \<Rightarrow> world \<Rightarrow> json list \<Rightarrow> string \<Rightarrow> ((json \<times> json \<times> nat) \<times> string) list" where
  "batch_outcomes L E w products output_dir =
     (case download_tasks products of
        Inl e \<Rightarrow> []
      | Inr tasks \<Rightarrow> fst (run_tasks L E w output_dir tasks))"

definition key_downloaded :: "((json \<times> json \<times> nat) \<times> string) list \<Rightarrow> json \<Rightarrow> bool" where
  "key_downloaded outs pid =
     list_ex (\<lambda>((url, product_id, i), local_path).
                local_path \<noteq> [] \<and> py_key product_id = Some pid) outs"

definition successful_paths ::
  "((json \<times> json \<times> nat) \<times> string) list \<Rightarrow> json \<Rightarrow> json \<Rightarrow> string list" where
  "successful_paths outs pid u =
     map snd (filter (\<lambda>((url, product_id, i), local_path).
                local_path \<noteq> [] \<and> py_key product_id = Some pid \<and> py_key url = Some u) outs)"

definition recorded_path ::
  "((json \<times> json \<times> nat) \<times> string) list \<Rightarrow> json \<Rightarrow> json \<Rightarrow> string" where
  "recorded_path outs pid url =
     (case py_key url of
        None \<Rightarrow> ''''
      | Some u \<Rightarrow> (case successful_paths outs pid u of [] \<Rightarrow> '''' | ps \<Rightarrow> last ps))"

text \<open>A product the fetcher can process: a dictionary whose product id is hashable and
  whose \<^verbatim>\<open>image_urls\<close> can be iterated and holds hashable values.\<close>

definition well_formed :: "json \<Rightarrow> bool" where
  "well_formed product =
     (case product of
        JObj p \<Rightarrow>
          py_key (dict_get p ''product_id'' (JStr ''unknown'')) \<noteq> None \<and>
          (case py_iter (dict_get p ''image_urls'' (JList [])) of
             Inl e \<Rightarrow> False
           | Inr image_urls \<Rightarrow> list_all (\<lambda>url. py_key url \<noteq> None) image_urls)
      | _ \<Rightarrow> False)"

text \<open>The dictionary that \<^verbatim>\<open>results\<close> holds for a product key, empty when the key is
  absent.\<close>

definition inner_paths :: "(json \<times> (json \<times> string) list) list \<Rightarrow> json \<Rightarrow> (json \<times> string) list" where
  "inner_paths results pid = (case map_of results pid of None \<Rightarrow> [] | Some m \<Rightarrow> m)"

text \<open>An environment in which everything succeeds except the second HTTP request of the
  run, and a batch of one record whose only download fails in \<open>sample_env\<close>.\<close>

definition flaky_env :: env where
  "flaky_env =
     \<lparr>can_mkdir = (\<lambda>d. True), can_open = (\<lambda>p. True),
      http_get = (\<lambda>n u. if n = 1 then NoResponse else Complete ''data'')\<rparr>"

definition lone_product :: "(string \<times> json) list" where
  "lone_product = [(''product_id'', JStr ''1''), (''image_urls'', JList [JStr ''http://x/a.jpg''])]"

text \<open>What the fetcher returns for \<open>sample_products\<close> in \<open>flaky_env\<close>: the second download
  of the first record fails.\<close>

definition sample_fetched :: "json list" where
  "sample_fetched =
     [JObj [(''product_id'', JStr ''1''), (''brand'', JStr ''Acme''), (''name'', JStr ''A B''),
            (''image_urls'', JList [JStr ''http://x/a.jpg'', JStr ''http://x/b.jpg'']),
            (''inventory_potencies'', JList [JObj [(''thc_potency'', JInt 18)]]),
            (''price_gram'', JInt 5),
            (''local_image_paths'', JList [JStr ''images/1_a.jpg'', JStr ''''])],
      JObj [(''product_id'', JStr ''2''), (''image_urls'', JList [JStr ''http://x/c.jpg'']),
            (''local_image_paths'', JList [JStr ''images/2_c.jpg''])]]"

section \<open>Site Scraper (\<^verbatim>\<open>scraper/scraper.py\<close>)\<close>

text \<open>
  \<open>get_page\<close>: the parsed page (kept as its HTML text) or \<open>None\<close>, and the world left.
  Both \<^verbatim>\<open>except\<close> clauses return \<^verbatim>\<open>None\<close>: \<^verbatim>\<open>urljoin\<close> raising, the request failing
  (\<^verbatim>\<open>requests.get\<close> reads the whole body here, so a broken transfer is a failed request),
  or the parser raising.  A parsed page is truthy whatever it contains, so the tests
  \<^verbatim>\<open>if not category_soup\<close> and \<^verbatim>\<open>if not product_soup\<close> of \<open>scrape_products\<close> hold
  exactly when \<open>get_page\<close> returned \<^verbatim>\<open>None\<close>.
\<close>

definition get_page :: "pylib \<Rightarrow> env \<Rightarrow> world \<Rightarrow> string \<Rightarrow> string \<Rightarrow> string option \<times> world" where
  "get_page L E w base_url url =
     (case urljoin L base_url url of
        None \<Rightarrow> (None, w)
      | Some full_url \<Rightarrow>
          (case http_get E (length (requests w)) full_url of
             Complete body \<Rightarrow>
               (if html_parses L body then Some body else None,
                w\<lparr>requests := requests w @ [full_url]\<rparr>)
           | _ \<Rightarrow> (None, w\<lparr>requests := requests w @ [full_url]\<rparr>)))"

text \<open>The loop of \<open>extract_product_links\<close> over the selected elements; \<open>None\<close> when
  \<^verbatim>\<open>urljoin\<close> raises, which makes the function return the empty list.\<close>

fun links_loop :: "pylib \<Rightarrow> string \<Rightarrow> element list \<Rightarrow> string list \<Rightarrow> string list option" where
  "links_loop L base_url [] links = Some links"
| "links_loop L base_url (link # rest) links =
     (case map_of (el_attrs link) ''href'' of
        None \<Rightarrow> links_loop L base_url rest links
      | Some href \<Rightarrow>
          if href \<noteq> [] then
            (case urljoin L base_url href of
               None \<Rightarrow> None
             | Some full_url \<Rightarrow> links_loop L base_url rest (links @ [full_url]))
          else links_loop L base_url rest links)"

definition extract_product_links :: "pylib \<Rightarrow> string \<Rightarrow> string \<Rightarrow> string \<Rightarrow> string list" where
  "extract_product_links L base_url soup product_link_selector =
     (case soup_select L soup product_link_selector of
        None \<Rightarrow> []
      | Some elements \<Rightarrow>
          (case links_loop L base_url elements [] of
             None \<Rightarrow> []
           | Some links \<Rightarrow> links))"

text \<open>\<^verbatim>\<open>[img.get('src') for img in elements if img.get('src')]\<close>\<close>

definition image_srcs :: "element list \<Rightarrow> json list" where
  "image_srcs elements =
     concat (map (\<lambda>img. case map_of (el_attrs img) ''src'' of
                          None \<Rightarrow> []
                        | Some src \<Rightarrow> if src \<noteq> [] then [JStr src] else []) elements)"

text \<open>The loop of \<open>extract_product_data\<close> over \<^verbatim>\<open>selectors.items()\<close>; \<open>None\<close> when
  \<^verbatim>\<open>soup.select\<close> raises, which makes the function return the empty dictionary.\<close>

fun data_loop ::
  "pylib \<Rightarrow> string \<Rightarrow> (string \<times> string) list \<Rightarrow> (string \<times> json) list \<Rightarrow>
   (string \<times> json) list option" where
  "data_loop L soup [] product = Some product"
| "data_loop L soup ((field, selector) # rest) product =
     (case soup_select L soup selector of
        None \<Rightarrow> None
      | Some elements \<Rightarrow>
          (case elements of
             [] \<Rightarrow> data_loop L soup rest product
           | first # others \<Rightarrow>
               if field = ''image_urls''
               then data_loop L soup rest
                      (AList.update field (JList (image_srcs elements)) product)
               else data_loop L soup rest
                      (AList.update field (JStr (str_strip L (el_text first))) product)))"

definition extract_product_data ::
  "pylib \<Rightarrow> string \<Rightarrow> (string \<times> string) list \<Rightarrow> (string \<times> json) list" where
  "extract_product_data L soup selectors =
     (case data_loop L soup selectors [] of None \<Rightarrow> [] | Some product \<Rightarrow> product)"

text \<open>The \<^verbatim>\<open>for i, link in enumerate(product_links)\<close> loop of \<open>scrape_products\<close>, with
  \<open>products\<close> as accumulator.\<close>

fun scrape_loop ::
  "pylib \<Rightarrow> env \<Rightarrow> world \<Rightarrow> string \<Rightarrow> (string \<times> string) list \<Rightarrow> string list \<Rightarrow>
   (string \<times> json) list list \<Rightarrow> (string \<times> json) list list \<times> world" where
  "scrape_loop L E w base_url product_selectors [] products = (products, w)"
| "scrape_loop L E w base_url product_selectors (link # links) products =
     (case get_page L E w base_url link of
        (None, w1) \<Rightarrow> scrape_loop L E w1 base_url product_selectors links products
      | (Some product_soup, w1) \<Rightarrow>
          (let product_data = extract_product_data L product_soup product_selectors in
           if product_data \<noteq> []
           then scrape_loop L E w1 base_url product_selectors links
                  (products @ [AList.update ''product_url'' (JStr link) product_data])
           else scrape_loop L E w1 base_url product_selectors links products))"

definition scrape_products ::
  "pylib \<Rightarrow> env \<Rightarrow> world \<Rightarrow> string \<Rightarrow> string \<Rightarrow> string \<Rightarrow> (string \<times> string) list \<Rightarrow> int \<Rightarrow>
   (string \<times> json) list list \<times> world" where
  "scrape_products L E w base_url category_url product_link_selector product_selectors
     max_products =
     (case get_page L E w base_url category_url of
        (None, w1) \<Rightarrow> ([], w1)
      | (Some category_soup, w1) \<Rightarrow>
          scrape_loop L E w1 base_url product_selectors
            (slice_to max_products
               (extract_product_links L base_url category_soup product_link_selector))
            [])"

text \<open>
  Notions the claims about fetch failures speak of.  \<open>fetch_pages\<close> fetches the pages of
  the given links one after the other and pairs each link with what \<open>get_page\<close> returned
  for it (\<open>None\<close> for a failed fetch).  \<open>link_records\<close> is what one link contributes to
  the result of a scrape: nothing when its page could not be fetched, nothing when no
  field was extracted from its page, and otherwise the one record extracted from the
  page, with \<^verbatim>\<open>product_url\<close> set to the link.
\<close>

fun fetch_pages ::
  "pylib \<Rightarrow> env \<Rightarrow> world \<Rightarrow> string \<Rightarrow> string list \<Rightarrow> (string \<times> string option) list" where
  "fetch_pages L E w base_url [] = []"
| "fetch_pages L E w base_url (link # links) =
     (link, fst (get_page L E w base_url link)) #
     fetch_pages L E (snd (get_page L E w base_url link)) base_url links"

definition link_records ::
  "pylib \<Rightarrow> (string \<times> string) list \<Rightarrow> string \<times> string option \<Rightarrow> (string \<times> json) list list" where
  "link_records L product_selectors fetched =
     (case snd fetched of
        None \<Rightarrow> []
      | Some product_soup \<Rightarrow>
          if extract_product_data L product_soup product_selectors = [] then []
          else [AList.update ''product_url'' (JStr (fst fetched))
                  (extract_product_data L product_soup product_selectors)])"

text \<open>The product links of a scrape, as \<open>scrape_products\<close> computes them from the listing
  page.\<close>

definition product_links ::
  "pylib \<Rightarrow> env \<Rightarrow> world \<Rightarrow> string \<Rightarrow> string \<Rightarrow> string \<Rightarrow> int \<Rightarrow> string list" where
  "product_links L E w base_url category_url product_link_selector max_products =
     (case fst (get_page L E w base_url category_url) of
        None \<Rightarrow> []
      | Some category_soup \<Rightarrow>
          slice_to max_products
            (extract_product_links L base_url category_soup product_link_selector))"

text \<open>
  A small shop for evaluating the scraper: a listing page with four product links; the
  first product page has a title and two images, the request for the second fails, the
  third page has a title, and the fourth page matches no selector.
\<close>

definition shop_lib :: pylib where
  "shop_lib =
     \<lparr>repr_str = (\<lambda>s. s), str_title = (\<lambda>s. s), str_lower = (\<lambda>s. s),
      str_strip = (\<lambda>s. filter (\<lambda>c. c \<noteq> CHR '' '') s),
      url_path = (\<lambda>u. Some u),
      urljoin = (\<lambda>b u. Some (if take 7 u = ''http://'' then u else b @ u)),
      html_parses = (\<lambda>t. True),
      soup_select = (\<lambda>page selector.
        if page = ''listing'' \<and> selector = ''a.product'' then
          Some [\<lparr>el_attrs = [(''href'', ''/p1'')], el_text = ''one''\<rparr>,
                \<lparr>el_attrs = [(''href'', ''/p2'')], el_text = ''two''\<rparr>,
                \<lparr>el_attrs = [(''href'', ''/p3'')], el_text = ''three''\<rparr>,
                \<lparr>el_attrs = [(''href'', ''http://shop/p4'')], el_text = ''four''\<rparr>]
        else if page = ''page1'' \<and> selector = ''h1'' then
          Some [\<lparr>el_attrs = [], el_text = '' Widget ''\<rparr>]
        else if page = ''page1'' \<and> selector = ''img'' then
          Some [\<lparr>el_attrs = [(''src'', ''/a.jpg'')], el_text = ''''\<rparr>,
                \<lparr>el_attrs = [], el_text = ''''\<rparr>,
                \<lparr>el_attrs = [(''src'', ''/b.jpg'')], el_text = ''''\<rparr>]
        else if page = ''page3'' \<and> selector = ''h1'' then
          Some [\<lparr>el_attrs = [], el_text = ''Gadget''\<rparr>]
        else Some [])\<rparr>"

definition shop_env :: env where
  "shop_env =
     \<lparr>can_mkdir = (\<lambda>d. True), can_open = (\<lambda>p. True),
      http_get = (\<lambda>n u.
        if u = ''http://shop/products'' then Complete ''listing''
        else if u = ''http://shop/p1'' then Complete ''page1''
        else if u = ''http://shop/p3'' then Complete ''page3''
        else if u = ''http://shop/p4'' then Complete ''page4''
        else NoResponse)\<rparr>"

definition shop_selectors :: "(string \<times> string) list" where
  "shop_selectors = [(''name'', ''h1''), (''image_urls'', ''img''), (''price'', ''span.price'')]"

section \<open>Basic facts about the built-ins\<close>

lemma bind_err_simps [simp]:
  "bind_err (Inl e) f = Inl e"
  "bind_err (Inr x) f = f x"
  by (simp_all add: bind_err_def)

lemma bind_err_eq_Inr:
  "bind_err m f = Inr y \<longleftrightarrow> (\<exists>x. m = Inr x \<and> f x = Inr y)"
  by (cases m) simp_all

lemma map_err_Inr:
  "map_err f xs = Inr ys \<Longrightarrow>
   length ys = length xs \<and> (\<forall>i<length xs. f (xs ! i) = Inr (ys ! i))"
proof (induction xs arbitrary: ys)
  case Nil
  then show ?case by simp
next
  case (Cons x xs)
  from Cons.prems obtain y ys' where y: "f x = Inr y" and ys': "map_err f xs = Inr ys'"
    and ys: "ys = y # ys'"
    by (auto split: sum.splits)
  from Cons.IH [OF ys'] y ys show ?case
    by (auto simp: nth_Cons split: nat.splits)
qed

lemma digit_char_code: "d < 10 \<Longrightarrow> (of_char (digit_char d) :: nat) = 48 + d"
proof -
  assume "d < 10"
  then have "d \<in> {0, 1, 2, 3, 4, 5, 6, 7, 8, 9}" by auto
  then show ?thesis by (auto simp: digit_char_def)
qed

lemma digit_char_inj: "a < 10 \<Longrightarrow> b < 10 \<Longrightarrow> digit_char a = digit_char b \<Longrightarrow> a = b"
proof -
  assume "a < 10" "b < 10" "digit_char a = digit_char b"
  then have "48 + a = 48 + b"
    using digit_char_code [of a] digit_char_code [of b] by metis
  then show ?thesis by simp
qed

lemma str_nat_nonempty: "str_nat n \<noteq> []"
  by (subst str_nat.simps) simp

lemma str_nat_inj: "str_nat n = str_nat m \<Longrightarrow> n = m"
proof (induction n arbitrary: m rule: str_nat.induct)
  case (1 n)
  show ?case
  proof (cases "n < 10")
    case True
    show ?thesis
    proof (cases "m < 10")
      case mt: True
      with True 1 show ?thesis
        by (simp add: str_nat.simps [of n] str_nat.simps [of m] digit_char_inj)
    next
      case False
      with True "1.prems" str_nat_nonempty [of "m div 10"] show ?thesis
        by (simp add: str_nat.simps [of n] str_nat.simps [of m])
    qed
  next
    case False
    show ?thesis
    proof (cases "m < 10")
      case True
      with False "1.prems" str_nat_nonempty [of "n div 10"] show ?thesis
        by (simp add: str_nat.simps [of n] str_nat.simps [of m])
    next
      case mf: False
      with False "1.prems"
      have "str_nat (n div 10) = str_nat (m div 10)" "digit_char (n mod 10) = digit_char (m mod 10)"
        by (simp_all add: str_nat.simps [of n] str_nat.simps [of m])
      with "1.IH" [OF False] have "n div 10 = m div 10" "n mod 10 = m mod 10"
        by (auto intro: digit_char_inj)
      then show ?thesis by (metis div_mult_mod_eq)
    qed
  qed
qed

lemma image_field_inj: "image_field i = image_field j \<longleftrightarrow> i = j"
  by (auto simp: image_field_def dest: str_nat_inj)

lemma map_of_dict_of_items_aux:
  "map_of (foldl (\<lambda>d kv. AList.update (fst kv) (snd kv) d) d0 items) k =
   (case map_of (rev items) k of None \<Rightarrow> map_of d0 k | Some v \<Rightarrow> Some v)"
  by (induction items arbitrary: d0) (auto simp: update_conv' map_add_def split: option.splits)

lemma map_of_dict_of_items:
  "map_of (dict_of_items items) k = map_of (rev items) k"
  by (simp add: dict_of_items_def map_of_dict_of_items_aux split: option.splits)

lemma map_err_total:
  "(\<And>x. x \<in> set xs \<Longrightarrow> \<exists>y. f x = Inr y) \<Longrightarrow> \<exists>ys. map_err f xs = Inr ys"
proof (induction xs)
  case Nil
  then show ?case by simp
next
  case (Cons x xs)
  from Cons.prems [of x] obtain y where "f x = Inr y" by auto
  moreover from Cons obtain ys where "map_err f xs = Inr ys" by auto
  ultimately show ?case by simp
qed

lemma map_err_eq_map:
  assumes "map_err f xs = Inr ys" and "\<And>x y. x \<in> set xs \<Longrightarrow> f x = Inr y \<Longrightarrow> y = g x"
  shows "ys = map g xs"
proof (rule nth_equalityI)
  from map_err_Inr [OF assms(1)] show "length ys = length (map g xs)" by simp
  fix i assume "i < length ys"
  with map_err_Inr [OF assms(1)] have i: "i < length xs" and "f (xs ! i) = Inr (ys ! i)"
    by auto
  with assms(2) [of "xs ! i" "ys ! i"] show "ys ! i = map g xs ! i" by simp
qed

section \<open>Properties of the Record Loader\<close>

lemma load_entries_all_parsed:
  "list_all is_parsed (json_entries entries) \<Longrightarrow>
   load_entries entries acc = Inr (acc @ concat (map parsed_value (json_entries entries)))"
proof (induction entries arbitrary: acc)
  case Nil
  then show ?case by (simp add: json_entries_def)
next
  case (Cons e entries)
  obtain filename st where e: "e = (filename, st)" by (cases e)
  show ?case
  proof (cases "endswith filename ''.json''")
    case False
    with Cons e show ?thesis by (simp add: json_entries_def)
  next
    case True
    with Cons.prems e obtain data where st: "st = Parsed data"
      by (cases st) (auto simp: json_entries_def)
    from Cons.prems e True have rest: "list_all is_parsed (json_entries entries)"
      by (simp add: json_entries_def)
    show ?thesis
      using True e st Cons.IH [OF rest]
      by (cases data) (simp_all add: json_entries_def)
  qed
qed

lemma load_entries_first_failure:
  "find (\<lambda>st. \<not> is_parsed st) (json_entries entries) = Some (Raises err) \<Longrightarrow>
   load_entries entries acc = Inl err"
proof (induction entries arbitrary: acc)
  case Nil
  then show ?case by (simp add: json_entries_def)
next
  case (Cons e entries)
  obtain filename st where e: "e = (filename, st)" by (cases e)
  show ?case
  proof (cases "endswith filename ''.json''")
    case False
    with Cons e show ?thesis by (simp add: json_entries_def)
  next
    case True
    show ?thesis
    proof (cases st)
      case (Parsed data)
      with Cons.prems e True
      have "find (\<lambda>st. \<not> is_parsed st) (json_entries entries) = Some (Raises err)"
        by (simp add: json_entries_def)
      from Cons.IH [OF this] show ?thesis
        using True e Parsed by (cases data) simp_all
    next
      case (Raises err')
      with Cons.prems e True show ?thesis by (simp add: json_entries_def)
    qed
  qed
qed

lemma find_first_failure:
  "Raises err \<in> set sts \<Longrightarrow> \<exists>e. find (\<lambda>st. \<not> is_parsed st) sts = Some (Raises e)"
proof (induction sts)
  case Nil
  then show ?case by simp
next
  case (Cons st sts)
  then show ?case by (cases st) auto
qed

text \<open>
  Claim C3, as amended.  Whenever some \<^verbatim>\<open>.json\<close> entry of the directory fails to parse as
  JSON, \<open>load_json_files\<close> raises and returns no records at all: the result is never a
  (partial) list of records.  The exception it raises is the one raised by the first
  \<^verbatim>\<open>.json\<close> entry, in enumeration order, that cannot be loaded; it is the parse error,
  \<^verbatim>\<open>json.JSONDecodeError\<close>, when that first entry is one that fails to parse.
\<close>

theorem load_json_files_first_failure:
  assumes "Raises JSONDecodeError \<in> set (json_entries entries)"
  shows "(\<forall>records. load_json_files (Dir entries) \<noteq> Inr records) \<and>
         (\<exists>e. find (\<lambda>st. \<not> is_parsed st) (json_entries entries) = Some (Raises e) \<and>
              load_json_files (Dir entries) = Inl e) \<and>
         (find (\<lambda>st. \<not> is_parsed st) (json_entries entries) = Some (Raises JSONDecodeError) \<longrightarrow>
          load_json_files (Dir entries) = Inl JSONDecodeError)"
proof -
  from find_first_failure [OF assms] obtain e where
    e: "find (\<lambda>st. \<not> is_parsed st) (json_entries entries) = Some (Raises e)"
    by blast
  then have raised: "load_entries entries [] = Inl e"
    by (rule load_entries_first_failure)
  then have none: "\<forall>records. load_entries entries [] \<noteq> Inr records"
    by simp
  from e raised none show ?thesis
    by (simp add: load_json_files_def)
qed

theorem load_json_files_first_failure_witness:
  "Raises JSONDecodeError \<in> set (json_entries
      [(''a.json'', Parsed (JObj [(''product_id'', JStr ''1'')])),
       (''b.json'', Raises JSONDecodeError),
       (''c.json'', Parsed (JList []))]) \<and>
   find (\<lambda>st. \<not> is_parsed st) (json_entries
      [(''a.json'', Parsed (JObj [(''product_id'', JStr ''1'')])),
       (''b.json'', Raises JSONDecodeError),
       (''c.json'', Parsed (JList []))]) = Some (Raises JSONDecodeError) \<and>
   load_json_files (Dir
      [(''a.json'', Parsed (JObj [(''product_id'', JStr ''1'')])),
       (''b.json'', Raises JSONDecodeError),
       (''c.json'', Parsed (JList []))]) = Inl JSONDecodeError"
proof -
  let ?entries = "[(''a.json'', Parsed (JObj [(''product_id'', JStr ''1'')])),
       (''b.json'', Raises JSONDecodeError),
       (''c.json'', Parsed (JList []))]"
  have m: "Raises JSONDecodeError \<in> set (json_entries ?entries)"
    by (simp add: json_entries_def endswith_def)
  have f: "find (\<lambda>st. \<not> is_parsed st) (json_entries ?entries) = Some (Raises JSONDecodeError)"
    by (simp add: json_entries_def endswith_def)
  from load_json_files_first_failure [OF m] f
  have "load_json_files (Dir ?entries) = Inl JSONDecodeError"
    by blast
  with m f show ?thesis by blast
qed

text \<open>
  Claim C3, as stated, fails: it is not always the parse error that is raised.  In the
  directory below \<^verbatim>\<open>b.json\<close> fails to parse, but \<^verbatim>\<open>a.json\<close>, which is enumerated first,
  cannot be opened, and the loader raises that \<^verbatim>\<open>OSError\<close>.
\<close>

theorem load_json_files_read_error_counterexample:
  "Raises JSONDecodeError \<in> set (json_entries
      [(''a.json'', Raises OSError), (''b.json'', Raises JSONDecodeError)]) \<and>
   load_json_files (Dir [(''a.json'', Raises OSError), (''b.json'', Raises JSONDecodeError)]) =
     Inl OSError"
  by (simp add: load_json_files_def json_entries_def endswith_def)

text \<open>
  Claim C6.  When every \<^verbatim>\<open>.json\<close> entry of the directory parses, \<open>load_json_files\<close>
  returns the concatenation, in the order \<^verbatim>\<open>os.listdir\<close> enumerates the entries, of what
  each \<^verbatim>\<open>.json\<close> entry contributes: all elements of a top-level sequence in array order,
  a top-level mapping as one record, and nothing for any other top-level value.
\<close>

theorem load_json_files_order:
  assumes "list_all is_parsed (json_entries entries)"
  shows "load_json_files (Dir entries) =
         Inr (concat (map parsed_value (json_entries entries)))"
  using load_entries_all_parsed [OF assms, of "[]"]
  by (simp add: load_json_files_def)

theorem load_json_files_order_witness:
  "list_all is_parsed (json_entries
      [(''a.json'', Parsed (JList [JObj [(''product_id'', JStr ''1'')], JInt 7])),
       (''notes.txt'', Raises JSONDecodeError),
       (''b.json'', Parsed (JStr ''text'')),
       (''c.json'', Parsed (JObj [(''product_id'', JStr ''2'')]))]) \<and>
   load_json_files (Dir
      [(''a.json'', Parsed (JList [JObj [(''product_id'', JStr ''1'')], JInt 7])),
       (''notes.txt'', Raises JSONDecodeError),
       (''b.json'', Parsed (JStr ''text'')),
       (''c.json'', Parsed (JObj [(''product_id'', JStr ''2'')]))]) =
   Inr [JObj [(''product_id'', JStr ''1'')], JInt 7, JObj [(''product_id'', JStr ''2'')]]"
proof -
  let ?entries = "[(''a.json'', Parsed (JList [JObj [(''product_id'', JStr ''1'')], JInt 7])),
       (''notes.txt'', Raises JSONDecodeError),
       (''b.json'', Parsed (JStr ''text'')),
       (''c.json'', Parsed (JObj [(''product_id'', JStr ''2'')]))]"
  have p: "list_all is_parsed (json_entries ?entries)"
    by (simp add: json_entries_def endswith_def)
  have "load_json_files (Dir ?entries) = Inr (concat (map parsed_value (json_entries ?entries)))"
    by (rule load_json_files_order [OF p])
  also have "concat (map parsed_value (json_entries ?entries)) =
      [JObj [(''product_id'', JStr ''1'')], JInt 7, JObj [(''product_id'', JStr ''2'')]]"
    by (simp add: json_entries_def endswith_def)
  finally show ?thesis using p by blast
qed

section \<open>Properties of the Flattener\<close>

lemma max_images_loop_Max:
  "max_images_loop ps m = Inr M \<Longrightarrow> M = Max (insert m (image_count ` set ps))"
proof (induction ps arbitrary: m)
  case Nil
  then show ?case by simp
next
  case (Cons p ps)
  from Cons.prems obtain d n where p: "p = JObj d"
    and n: "py_len (dict_get d ''image_urls'' (JList [])) = Inr n"
    and rest: "max_images_loop ps (max m n) = Inr M"
    by (auto split: json.splits sum.splits)
  have cnt: "image_count p = n" using p n by (simp add: image_count_def)
  have "M = Max (insert (max m n) (image_count ` set ps))"
    by (rule Cons.IH [OF rest])
  also have "\<dots> = Max (insert m (insert n (image_count ` set ps)))"
    by (cases "ps = []") (simp_all add: max.assoc)
  finally show ?case using cnt by (simp add: insert_commute)
qed

lemma max_images_loop_nonempty:
  assumes "max_images_loop ps 0 = Inr M" and "ps \<noteq> []"
  shows "M = Max (image_count ` set ps)"
proof -
  have "M = Max (insert 0 (image_count ` set ps))"
    by (rule max_images_loop_Max [OF assms(1)])
  also have "\<dots> = Max (image_count ` set ps)"
    using assms(2) by (simp add: max_def)
  finally show ?thesis .
qed

lemma map_of_rev_nth:
  assumes "distinct (map fst xs)" and "j < length xs"
  shows "map_of (rev xs) (fst (xs ! j)) = Some (snd (xs ! j))"
proof -
  have "distinct (map fst (rev xs))" using assms(1) by (simp add: rev_map [symmetric])
  moreover have "(fst (xs ! j), snd (xs ! j)) \<in> set (rev xs)" using assms(2) by simp
  ultimately show ?thesis by (simp only: map_of_eq_Some_iff)
qed

lemma image_cols_Inr:
  assumes "image_cols M urls = Inr cols"
  shows "length cols = M"
    and "i < M \<Longrightarrow> fst (cols ! i) = image_field (Suc i)"
    and "i < M \<Longrightarrow> py_len urls = Inr n \<Longrightarrow> n \<le> i \<Longrightarrow> snd (cols ! i) = JStr ''''"
proof -
  from map_err_Inr [OF assms [unfolded image_cols_def]]
  have len: "length cols = length [0..<M]"
    and nth: "\<And>k. k < M \<Longrightarrow> image_col urls ([0..<M] ! k) = Inr (cols ! k)"
    by auto
  from len show "length cols = M" by simp
  { assume i: "i < M"
    obtain a b where ab: "cols ! i = (a, b)" by (cases "cols ! i")
    from nth [OF i] i ab have c: "image_col urls i = Inr (a, b)" by simp
    then show "fst (cols ! i) = image_field (Suc i)"
      using ab by (auto simp: image_col_def bind_err_eq_Inr split: if_splits)
    assume "py_len urls = Inr n" "n \<le> i"
    with c show "snd (cols ! i) = JStr ''''"
      using ab by (auto simp: image_col_def) }
qed

lemma image_cols_py_len:
  assumes "image_cols M urls = Inr cols" and "0 < M"
  shows "\<exists>n. py_len urls = Inr n"
proof -
  from map_err_Inr [OF assms(1) [unfolded image_cols_def]] assms(2)
  have "image_col urls ([0..<M] ! 0) = Inr (cols ! 0)" by auto
  then show ?thesis by (auto simp: image_col_def bind_err_eq_Inr)
qed

lemma image_cols_distinct:
  assumes "image_cols M urls = Inr cols"
  shows "distinct (map fst cols)"
proof -
  have "map fst cols = map (\<lambda>i. image_field (Suc i)) [0..<M]"
    using image_cols_Inr(1,2) [OF assms]
    by (auto intro: nth_equalityI)
  moreover have "distinct (map (\<lambda>i. image_field (Suc i)) [0..<M])"
    by (simp add: distinct_map inj_on_def image_field_inj)
  ultimately show ?thesis by simp
qed

lemma image_field_not_fixed [simp]:
  "image_field i \<noteq> ''tags''" "image_field i \<noteq> ''product_link''"
  by (simp_all add: image_field_def)

lemma make_row_blank_image:
  assumes row: "make_row L M p = Inr row" and le: "image_count p \<le> j" and j: "j < M"
  shows "dict_get row (image_field (Suc j)) dflt = JStr ''''"
proof -
  from row obtain d where p: "p = JObj d"
    by (auto simp: make_row_def split: json.splits)
  from row p obtain cols items t l where
    cols: "image_cols M (dict_get d ''image_urls'' (JList [])) = Inr cols" and
    items: "row = dict_of_items (items @ cols @ [(''tags'', t), (''product_link'', l)])"
    by (auto simp: make_row_def bind_err_eq_Inr simp flip: append_assoc)
  from image_cols_py_len [OF cols] j obtain n
    where n: "py_len (dict_get d ''image_urls'' (JList [])) = Inr n"
    by auto
  with p le have nj: "n \<le> j" by (simp add: image_count_def)
  have f: "fst (cols ! j) = image_field (Suc j)" and s: "snd (cols ! j) = JStr ''''"
    using image_cols_Inr(2,3) [OF cols] j n nj by auto
  have "map_of (rev cols) (fst (cols ! j)) = Some (snd (cols ! j))"
    using image_cols_distinct [OF cols] image_cols_Inr(1) [OF cols] j
    by (intro map_of_rev_nth) auto
  then have "map_of (rev cols) (image_field (Suc j)) = Some (JStr '''')"
    using f s by simp
  then have "map_of row (image_field (Suc j)) = Some (JStr '''')"
    by (simp add: items map_of_dict_of_items map_add_def)
  then show ?thesis by (simp add: dict_get_def)
qed

lemma dict_of_items_keys_aux:
  "fst ` set (foldl (\<lambda>d kv. AList.update (fst kv) (snd kv) d) d0 items) =
   fst ` set d0 \<union> fst ` set items"
  by (induction items arbitrary: d0) (auto simp: dom_update)

lemma dict_of_items_keys: "fst ` set (dict_of_items items) = fst ` set items"
  by (simp add: dict_of_items_def dict_of_items_keys_aux)

lemma image_cols_keys:
  assumes "image_cols M urls = Inr cols"
  shows "map fst cols = map image_field [1..<M + 1]"
proof -
  have "map fst cols = map (\<lambda>i. image_field (Suc i)) [0..<M]"
    using image_cols_Inr(1,2) [OF assms]
    by (auto intro: nth_equalityI)
  also have "\<dots> = map image_field (map Suc [0..<M])"
    by simp
  also have "map Suc [0..<M] = [1..<M + 1]"
    by (simp add: map_Suc_upt)
  finally show ?thesis .
qed

lemma make_row_keys:
  assumes "make_row L M p = Inr row"
  shows "fst ` set row = set (csv_fields M)"
proof -
  from assms obtain d where p: "p = JObj d"
    by (auto simp: make_row_def split: json.splits)
  from assms p obtain wo thc cols t l where
    cols: "image_cols M (dict_get d ''image_urls'' (JList [])) = Inr cols" and
    row: "row = dict_of_items (fixed_columns d wo thc @ row_prices L d @ cols @
            [(''tags'', t), (''product_link'', l)])"
    by (auto simp: make_row_def bind_err_eq_Inr)
  have 1: "map fst (fixed_columns d wo thc) = static_fields"
    by (simp add: fixed_columns_def static_fields_def)
  have 2: "map fst (row_prices L d) = price_fields"
    by (simp add: row_prices_def comp_def)
  have "map fst (fixed_columns d wo thc @ row_prices L d @ cols @
            [(''tags'', t), (''product_link'', l)]) = csv_fields M"
    by (simp add: 1 2 image_cols_keys [OF cols] csv_fields_def)
  then have "fst ` set (fixed_columns d wo thc @ row_prices L d @ cols @
            [(''tags'', t), (''product_link'', l)]) = set (csv_fields M)"
    by (metis set_map)
  then show ?thesis by (simp only: row dict_of_items_keys)
qed

lemma image_columns_csv_fields:
  "image_columns (csv_fields M) = map image_field [1..<Suc M]"
proof -
  have "filter (\<lambda>f. take 6 f = ''image_'') (map image_field xs) = map image_field xs" for xs
    by (induction xs) (simp_all add: image_field_def)
  then show ?thesis
    by (simp add: image_columns_def csv_fields_def static_fields_def price_fields_def
        weights_keys_def)
qed

lemma csv_cell_blank: "csv_cell L (JStr '''') = ''''"
  by (simp add: csv_cell_def py_str_def)

lemma generate_csv_success:
  assumes "fst (generate_csv L E w products output_file) = Inr path"
  shows "\<exists>csv_rows. products \<noteq> [] \<and>
           max_images_loop products 0 = Inr (Max (image_count ` set products)) \<and>
           map_err (make_row L (Max (image_count ` set products))) products = Inr csv_rows \<and>
           snd (generate_csv L E w products output_file) =
             w\<lparr>files := (files w)(output_file \<mapsto>
                 Csv (csv_fields (Max (image_count ` set products)) #
                      map (dict_writer_row L (csv_fields (Max (image_count ` set products))))
                        csv_rows))\<rparr>"
proof -
  from assms have ne: "products \<noteq> []"
    by (auto simp: generate_csv_def)
  with assms obtain M where M: "max_images_loop products 0 = Inr M"
    by (auto simp: generate_csv_def split: sum.splits)
  from max_images_loop_nonempty [OF M ne] have MM: "M = Max (image_count ` set products)" .
  from assms ne M obtain csv_rows where rows: "map_err (make_row L M) products = Inr csv_rows"
    by (auto simp: generate_csv_def split: sum.splits)
  from assms ne M rows have "can_open E output_file"
    by (auto simp: generate_csv_def split: if_splits)
  with ne M rows MM show ?thesis
    by (auto simp: generate_csv_def)
qed

text \<open>
  Claim C2.  When \<open>generate_csv\<close> succeeds (so the batch is not empty), the header row it
  writes has exactly the image columns \<^verbatim>\<open>image_1\<close> .. \<^verbatim>\<open>image_M\<close>, where \<open>M\<close> is the maximum
  of \<^verbatim>\<open>len(image_urls)\<close> over the records of the batch; there is one row per record, in
  order, each with one cell per column; and in the row of a record with fewer than \<open>M\<close>
  images the cells under the trailing image columns are empty strings.
\<close>

theorem generate_csv_image_columns:
  assumes ok: "fst (generate_csv L E w products output_file) = Inr path"
    and M: "M = Max (image_count ` set products)"
  shows "\<exists>rows.
           files (snd (generate_csv L E w products output_file)) output_file =
             Some (Csv (csv_fields M # rows)) \<and>
           image_columns (csv_fields M) = map image_field [1..<Suc M] \<and>
           length rows = length products \<and>
           (\<forall>k<length products.
              length (rows ! k) = length (csv_fields M) \<and>
              (\<forall>j c. image_count (products ! k) \<le> j \<and> j < M \<and>
                     c < length (csv_fields M) \<and> csv_fields M ! c = image_field (Suc j) \<longrightarrow>
                     rows ! k ! c = ''''))"
proof -
  from generate_csv_success [OF ok] M obtain csv_rows where
    rows: "map_err (make_row L M) products = Inr csv_rows" and
    w': "snd (generate_csv L E w products output_file) =
           w\<lparr>files := (files w)(output_file \<mapsto>
               Csv (csv_fields M # map (dict_writer_row L (csv_fields M)) csv_rows))\<rparr>"
    by auto
  let ?rows = "map (dict_writer_row L (csv_fields M)) csv_rows"
  from map_err_Inr [OF rows] have len: "length csv_rows = length products"
    and nth: "\<And>k. k < length products \<Longrightarrow> make_row L M (products ! k) = Inr (csv_rows ! k)"
    by auto
  have written: "files (snd (generate_csv L E w products output_file)) output_file =
      Some (Csv (csv_fields M # ?rows))"
    by (simp add: w')
  have cells: "length (?rows ! k) = length (csv_fields M) \<and>
      (\<forall>j c. image_count (products ! k) \<le> j \<and> j < M \<and>
             c < length (csv_fields M) \<and> csv_fields M ! c = image_field (Suc j) \<longrightarrow>
             ?rows ! k ! c = '''')" if k: "k < length products" for k
  proof -
    from k len have rk: "?rows ! k = dict_writer_row L (csv_fields M) (csv_rows ! k)"
      by simp
    have "?rows ! k ! c = ''''"
      if "image_count (products ! k) \<le> j" "j < M" "c < length (csv_fields M)"
        "csv_fields M ! c = image_field (Suc j)" for j c
    proof -
      from make_row_blank_image [OF nth [OF k] that(1,2)]
      have "dict_get (csv_rows ! k) (image_field (Suc j)) (JStr '''') = JStr ''''" .
      with that(3,4) show ?thesis
        by (simp add: rk dict_writer_row_def csv_cell_blank)
    qed
    moreover have "length (?rows ! k) = length (csv_fields M)"
      by (simp add: rk dict_writer_row_def)
    ultimately show ?thesis by blast
  qed
  show ?thesis
  proof (intro exI [of _ ?rows] conjI)
    show "files (snd (generate_csv L E w products output_file)) output_file =
        Some (Csv (csv_fields M # ?rows))"
      by (rule written)
    show "image_columns (csv_fields M) = map image_field [1..<Suc M]"
      by (rule image_columns_csv_fields)
    show "length ?rows = length products"
      using len by simp
    show "\<forall>k<length products.
        length (?rows ! k) = length (csv_fields M) \<and>
        (\<forall>j c. image_count (products ! k) \<le> j \<and> j < M \<and>
               c < length (csv_fields M) \<and> csv_fields M ! c = image_field (Suc j) \<longrightarrow>
               ?rows ! k ! c = '''')"
      using cells by blast
  qed
qed

theorem generate_csv_image_columns_witness:
  "fst (generate_csv sample_lib sample_env empty_world sample_products ''out.csv'') =
     Inr ''out.csv'' \<and>
   (2::nat) = Max (image_count ` set sample_products) \<and>
   (\<exists>rows.
      files (snd (generate_csv sample_lib sample_env empty_world sample_products ''out.csv''))
        ''out.csv'' = Some (Csv (csv_fields 2 # rows)) \<and>
      image_columns (csv_fields 2) = map image_field [1..<Suc 2] \<and>
      length rows = length sample_products \<and>
      (\<forall>k<length sample_products.
         length (rows ! k) = length (csv_fields 2) \<and>
         (\<forall>j c. image_count (sample_products ! k) \<le> j \<and> j < 2 \<and>
                c < length (csv_fields 2) \<and> csv_fields 2 ! c = image_field (Suc j) \<longrightarrow>
                rows ! k ! c = '''')))"
proof -
  have ok: "fst (generate_csv sample_lib sample_env empty_world sample_products ''out.csv'') =
      Inr ''out.csv''"
    by code_simp
  have M: "(2::nat) = Max (image_count ` set sample_products)"
    by (simp add: sample_products_def image_count_def dict_get_def)
  from generate_csv_image_columns [OF ok M] ok M show ?thesis
    by (intro conjI)
qed

lemma generate_csv_sample_file:
  "files (snd (generate_csv sample_lib sample_env empty_world sample_products ''out.csv''))
     ''out.csv'' =
   Some (Csv
     [[''brand'', ''name'', ''description'', ''type'', ''category'', ''weight_options'',
       ''THC_percent'', ''available_for_pickup'', ''available_for_delivery'',
       ''aggregate_rating'', ''review_count'', ''price_gram'', ''discounted_price_gram'',
       ''price_eighth_ounce'', ''discounted_price_eighth_ounce'', ''price_quarter_ounce'',
       ''discounted_price_quarter_ounce'', ''price_half_ounce'',
       ''discounted_price_half_ounce'', ''price_ounce'', ''discounted_price_ounce'',
       ''image_1'', ''image_2'', ''tags'', ''product_link''],
      [''Acme'', ''A B'', '''', '''', '''', '''', ''18%'', '''', '''', '''', '''', ''$5'',
       '''', '''', '''', '''', '''', '''', '''', '''', '''',
       ''http://x/a.jpg'', ''http://x/b.jpg'', '''', ''/shop/menu/products/1/Acme-A-B''],
      ['''', '''', '''', '''', '''', '''', '''', '''', '''', '''', '''', '''',
       '''', '''', '''', '''', '''', '''', '''', '''', '''',
       ''http://x/c.jpg'', '''', '''', ''/shop/menu/products/2/-'']])"
  by code_simp

text \<open>
  Claim C4.  Given an empty record sequence, \<open>generate_csv\<close> raises \<^verbatim>\<open>ValueError\<close> and
  leaves the world as it found it: no file is created or changed at the output path (or
  anywhere else).
\<close>

theorem generate_csv_empty:
  "generate_csv L E w [] output_file = (Inl ValueError, w)"
  by (simp add: generate_csv_def)

lemma thc_percent_of_present:
  assumes "dict_get p ''inventory_potencies'' JNull = JList (JObj d # rest)"
  shows "thc_percent_of L p = Inr (py_str L (dict_get d ''thc_potency'' (JStr '''')) @ ''%'')"
  using assms by (simp add: thc_percent_of_def)

lemma thc_percent_of_example:
  "thc_percent_of L [(''inventory_potencies'', JList [JObj [(''thc_potency'', JInt 18)]])] =
     Inr ''18%''"
  by (simp add: thc_percent_of_def dict_get_def py_str_def str_int_def str_nat.simps digit_char_def)

lemma thc_percent_of_empty:
  assumes "\<not> truthy (dict_get p ''inventory_potencies'' JNull)"
  shows "thc_percent_of L p = Inr ''''"
  using assms by (simp add: thc_percent_of_def)

lemma thc_percent_of_empty_example:
  "thc_percent_of L [(''inventory_potencies'', JList [])] = Inr ''''"
  by (simp add: thc_percent_of_def dict_get_def)

lemma thc_percent_of_missing_potency:
  "thc_percent_of L [(''inventory_potencies'', JList [JObj []])] = Inr ''%''"
  by (simp add: thc_percent_of_def dict_get_def py_str_def)

text \<open>
  Claim C5.  The THC cell is \<^verbatim>\<open>str(value) + "%"\<close> for the \<^verbatim>\<open>thc_potency\<close> value of the
  first element of \<^verbatim>\<open>inventory_potencies\<close>, and empty for an empty or missing
  \<^verbatim>\<open>inventory_potencies\<close> (the lemmas above).  But when the first element has no
  \<^verbatim>\<open>thc_potency\<close>, the potency is absent and the cell is not empty: the batch with the
  single record \<^verbatim>\<open>{"inventory_potencies": [{}]}\<close> is written with \<^verbatim>\<open>%\<close> in the column
  \<^verbatim>\<open>THC_percent\<close>.
\<close>

theorem generate_csv_thc_missing_potency:
  "files (snd (generate_csv sample_lib sample_env empty_world
      [JObj [(''inventory_potencies'', JList [JObj []])]] ''products.csv'')) ''products.csv'' =
   Some (Csv
     [[''brand'', ''name'', ''description'', ''type'', ''category'', ''weight_options'',
       ''THC_percent'', ''available_for_pickup'', ''available_for_delivery'',
       ''aggregate_rating'', ''review_count'', ''price_gram'', ''discounted_price_gram'',
       ''price_eighth_ounce'', ''discounted_price_eighth_ounce'', ''price_quarter_ounce'',
       ''discounted_price_quarter_ounce'', ''price_half_ounce'',
       ''discounted_price_half_ounce'', ''price_ounce'', ''discounted_price_ounce'',
       ''tags'', ''product_link''],
      ['''', '''', '''', '''', '''', '''', ''%'', '''', '''', '''', '''', '''',
       '''', '''', '''', '''', '''', '''', '''', '''', '''',
       '''', ''/shop/menu/products/None/-'']])"
  by code_simp


section \<open>Properties of the Image Fetcher\<close>

lemma key_downloaded_Cons:
  "key_downloaded (out # outs) pid \<longleftrightarrow> key_downloaded [out] pid \<or> key_downloaded outs pid"
  by (simp add: key_downloaded_def)

lemma successful_paths_Cons:
  "successful_paths (out # outs) pid u = successful_paths [out] pid u @ successful_paths outs pid u"
  by (simp add: successful_paths_def)

lemma record_result_key:
  "map_of (record_result out results) pid = None \<longleftrightarrow>
   map_of results pid = None \<and> \<not> key_downloaded [out] pid"
proof -
  obtain url product_id i local_path where out: "out = ((url, product_id, i), local_path)"
    by (cases out) auto
  show ?thesis
    by (cases "py_key product_id"; cases "py_key url")
       (auto simp: out key_downloaded_def update_conv' Let_def)
qed

lemma record_result_paths:
  "map_of (inner_paths (record_result out results) pid) u =
   (case successful_paths [out] pid u of
      [] \<Rightarrow> map_of (inner_paths results pid) u
    | ps \<Rightarrow> Some (last ps))"
proof -
  obtain url product_id i local_path where out: "out = ((url, product_id, i), local_path)"
    by (cases out) auto
  show ?thesis
    by (cases "py_key product_id"; cases "py_key url"; cases "map_of results pid")
       (auto simp: out successful_paths_def inner_paths_def update_conv' Let_def)
qed

lemma collect_results_key:
  "map_of (collect_results outs results) pid = None \<longleftrightarrow>
   map_of results pid = None \<and> \<not> key_downloaded outs pid"
proof (induction outs arbitrary: results)
  case Nil
  then show ?case by (simp add: key_downloaded_def)
next
  case (Cons out outs)
  show ?case
    using Cons.IH [of "record_result out results"] record_result_key [of out results pid]
      key_downloaded_Cons [of out outs pid]
    by (simp del: record_result.simps)
qed

lemma collect_results_paths:
  "map_of (inner_paths (collect_results outs results) pid) u =
   (case successful_paths outs pid u of
      [] \<Rightarrow> map_of (inner_paths results pid) u
    | ps \<Rightarrow> Some (last ps))"
proof (induction outs arbitrary: results)
  case Nil
  then show ?case by (simp add: successful_paths_def)
next
  case (Cons out outs)
  show ?case
    using Cons.IH [of "record_result out results"] record_result_paths [of out results pid u]
    by (simp del: record_result.simps add: successful_paths_Cons [of out outs]
          split: list.splits)
qed

lemma update_product_unchanged:
  assumes "update_product results product = Inr product'"
    and "product = JObj p"
    and "py_key (dict_get p ''product_id'' (JStr ''unknown'')) = Some pid"
    and "map_of results pid = None"
  shows "product' = product"
  using assms by (simp add: update_product_def)

lemma update_product_paths:
  assumes up: "update_product results product = Inr product'"
    and p: "product = JObj p"
    and pid: "py_key (dict_get p ''product_id'' (JStr ''unknown'')) = Some pid"
    and some: "map_of results pid \<noteq> None"
    and urls: "py_iter (dict_get p ''image_urls'' (JList [])) = Inr image_urls"
  shows "product' = JObj (AList.update ''local_image_paths''
           (JList (map (\<lambda>url. JStr (case py_key url of None \<Rightarrow> ''''
              | Some u \<Rightarrow> (case map_of (inner_paths results pid) u of
                             None \<Rightarrow> '''' | Some local_path \<Rightarrow> local_path))) image_urls)) p)"
proof -
  from some obtain paths where paths: "map_of results pid = Some paths" by auto
  then have inner: "inner_paths results pid = paths" by (simp add: inner_paths_def)
  let ?f = "\<lambda>url. case py_key url of None \<Rightarrow> Inl TypeError
      | Some u \<Rightarrow> Inr (JStr (case map_of paths u of None \<Rightarrow> '''' | Some local_path \<Rightarrow> local_path))"
  from up p pid paths urls obtain lips where
    lips: "map_err ?f image_urls = Inr lips" and
    p': "product' = JObj (AList.update ''local_image_paths'' (JList lips) p)"
    by (auto simp: update_product_def bind_err_eq_Inr)
  have "lips = map (\<lambda>url. JStr (case py_key url of None \<Rightarrow> ''''
              | Some u \<Rightarrow> (case map_of paths u of
                             None \<Rightarrow> '''' | Some local_path \<Rightarrow> local_path))) image_urls"
    by (rule map_err_eq_map [OF lips]) (auto split: option.splits)
  with p' show ?thesis unfolding inner by simp
qed

lemma update_product_shape:
  assumes "update_product results product = Inr product'"
  shows "\<exists>p pid image_urls. product = JObj p \<and>
           py_key (dict_get p ''product_id'' (JStr ''unknown'')) = Some pid \<and>
           (map_of results pid \<noteq> None \<longrightarrow>
              py_iter (dict_get p ''image_urls'' (JList [])) = Inr image_urls)"
  using assms
  by (auto simp: update_product_def bind_err_eq_Inr split: json.splits option.splits)

lemma update_product_frame:
  assumes "update_product results product = Inr product'"
  shows "\<exists>p p'. product = JObj p \<and> product' = JObj p' \<and>
           AList.delete ''local_image_paths'' p' = AList.delete ''local_image_paths'' p"
  using assms
  by (auto simp: update_product_def bind_err_eq_Inr delete_update_same
      split: json.splits option.splits)

lemma update_product_total:
  assumes "well_formed product"
  shows "\<exists>product'. update_product results product = Inr product'"
proof -
  from assms obtain p pid image_urls where p: "product = JObj p"
    and pid: "py_key (dict_get p ''product_id'' (JStr ''unknown'')) = Some pid"
    and urls: "py_iter (dict_get p ''image_urls'' (JList [])) = Inr image_urls"
    and keys: "list_all (\<lambda>url. py_key url \<noteq> None) image_urls"
    by (auto simp: well_formed_def split: json.splits sum.splits)
  show ?thesis
  proof (cases "map_of results pid")
    case None
    with p pid show ?thesis by (simp add: update_product_def)
  next
    case (Some paths)
    let ?f = "\<lambda>url. case py_key url of None \<Rightarrow> Inl TypeError
      | Some u \<Rightarrow> Inr (JStr (case map_of paths u of None \<Rightarrow> '''' | Some local_path \<Rightarrow> local_path))"
    have "\<exists>lips. map_err ?f image_urls = Inr lips"
      using keys by (intro map_err_total) (auto simp: list_all_iff)
    with p pid urls Some show ?thesis
      by (auto simp: update_product_def)
  qed
qed

lemma download_tasks_total:
  assumes "list_all well_formed products"
  shows "\<exists>tasks. download_tasks products = Inr tasks"
proof -
  have "\<exists>ts. map_err product_tasks products = Inr ts"
  proof (rule map_err_total)
    fix x assume "x \<in> set products"
    with assms have "well_formed x" by (simp add: list_all_iff)
    then show "\<exists>y. product_tasks x = Inr y"
      by (auto simp: well_formed_def product_tasks_def split: json.splits sum.splits)
  qed
  then show ?thesis by (auto simp: download_tasks_def)
qed

lemma download_product_images_success:
  assumes "fst (download_product_images L E w products output_dir max_workers) = Inr products'"
    and "products \<noteq> []"
  shows "map_err (update_product
           (collect_results (batch_outcomes L E w products output_dir) [])) products =
         Inr products'"
proof -
  from assms obtain tasks where tasks: "download_tasks products = Inr tasks"
    by (auto simp: download_product_images_def split: sum.splits)
  with assms have mw: "\<not> max_workers \<le> 0"
    by (auto simp: download_product_images_def split: if_splits)
  obtain outs w1 where run: "run_tasks L E w output_dir tasks = (outs, w1)"
    by (cases "run_tasks L E w output_dir tasks")
  with tasks have "batch_outcomes L E w products output_dir = outs"
    by (simp add: batch_outcomes_def)
  with assms tasks mw run show ?thesis
    by (simp add: download_product_images_def)
qed

text \<open>
  Claim C9.  Called with a falsy URL (\<^verbatim>\<open>None\<close>, the empty string, or any other value that
  \<^verbatim>\<open>not url\<close> accepts), \<open>download_image\<close> returns \<^verbatim>\<open>(url, "")\<close> and leaves the world as it
  found it, for every output directory, product id and index: no directory is created, no
  request is made and no file is written.
\<close>

theorem download_image_falsy_url:
  assumes "\<not> truthy url"
  shows "download_image L E w url output_dir product_id index = ((url, ''''), w)"
  using assms by (simp add: download_image_def)

theorem download_image_falsy_url_witness:
  "\<not> truthy (JStr '''') \<and>
   download_image sample_lib flaky_env empty_world (JStr '''') ''images'' (JStr ''1'') 0 =
     ((JStr '''', ''''), empty_world)"
proof -
  have f: "\<not> truthy (JStr '''')" by simp
  from download_image_falsy_url [OF f] f show ?thesis by (intro conjI)
qed

lemma download_image_truthy_url_effects:
  "requests (snd (download_image sample_lib flaky_env empty_world (JStr ''http://x/a.jpg'')
      ''images'' (JStr ''1'') 0)) = [''http://x/a.jpg''] \<and>
   dirs (snd (download_image sample_lib flaky_env empty_world (JStr ''http://x/a.jpg'')
      ''images'' (JStr ''1'') 0)) = {''images''} \<and>
   files (snd (download_image sample_lib flaky_env empty_world (JStr ''http://x/a.jpg'')
      ''images'' (JStr ''1'') 0)) ''images/1_a.jpg'' = Some (Bytes ''data'')"
  by code_simp

text \<open>
  Claim C8.  Whenever \<open>download_product_images\<close> returns, it returns as many records as it
  was given, in the same order; each returned record is the given record at the same
  position with, at most, \<^verbatim>\<open>local_image_paths\<close> set: without that key the two dictionaries
  have the same items in the same order, so every other field (\<^verbatim>\<open>image_urls\<close> and
  \<^verbatim>\<open>product_id\<close> among them) is unchanged.
\<close>

theorem download_product_images_frame:
  assumes "fst (download_product_images L E w products output_dir max_workers) = Inr products'"
  shows "length products' = length products \<and>
         (\<forall>n<length products. \<exists>p p'.
            products ! n = JObj p \<and> products' ! n = JObj p' \<and>
            AList.delete ''local_image_paths'' p' = AList.delete ''local_image_paths'' p \<and>
            (\<forall>key. key \<noteq> ''local_image_paths'' \<longrightarrow> map_of p' key = map_of p key))"
proof (cases "products = []")
  case True
  with assms show ?thesis by (simp add: download_product_images_def)
next
  case False
  from download_product_images_success [OF assms False]
  have up: "map_err (update_product
      (collect_results (batch_outcomes L E w products output_dir) [])) products = Inr products'" .
  let ?res = "collect_results (batch_outcomes L E w products output_dir) []"
  from map_err_Inr [OF up] have len: "length products' = length products"
    and nth: "\<And>n. n < length products \<Longrightarrow>
      update_product ?res (products ! n) = Inr (products' ! n)"
    by auto
  have "\<exists>p p'. products ! n = JObj p \<and> products' ! n = JObj p' \<and>
      AList.delete ''local_image_paths'' p' = AList.delete ''local_image_paths'' p \<and>
      (\<forall>key. key \<noteq> ''local_image_paths'' \<longrightarrow> map_of p' key = map_of p key)"
    if n: "n < length products" for n
  proof -
    from update_product_frame [OF nth [OF n]] obtain p p' where
      p: "products ! n = JObj p" and p': "products' ! n = JObj p'" and
      del: "AList.delete ''local_image_paths'' p' = AList.delete ''local_image_paths'' p"
      by auto
    have "map_of p' key = map_of p key" if "key \<noteq> ''local_image_paths''" for key
    proof -
      have "map_of p' key = map_of (AList.delete ''local_image_paths'' p') key"
        using that by (simp add: delete_conv')
      also have "\<dots> = map_of p key"
        using that by (simp add: del delete_conv')
      finally show ?thesis .
    qed
    with p p' del show ?thesis by blast
  qed
  with len show ?thesis by blast
qed

theorem download_product_images_frame_witness:
  "fst (download_product_images sample_lib flaky_env empty_world sample_products ''images'' 10) =
     Inr sample_fetched \<and>
   length sample_fetched = length sample_products \<and>
   (\<exists>p p'. sample_products ! 0 = JObj p \<and> sample_fetched ! 0 = JObj p' \<and>
      AList.delete ''local_image_paths'' p' = AList.delete ''local_image_paths'' p \<and>
      map_of p' ''image_urls'' = map_of p ''image_urls'' \<and>
      map_of p' ''product_id'' = map_of p ''product_id'')"
proof -
  have ret: "fst (download_product_images sample_lib flaky_env empty_world sample_products
      ''images'' 10) = Inr sample_fetched"
    by code_simp
  have n: "0 < length sample_products"
    by (simp add: sample_products_def)
  from download_product_images_frame [OF ret] n ret show ?thesis
    by fastforce
qed


lemma inner_paths_empty: "inner_paths [] pid = []"
  by (simp add: inner_paths_def)

lemma recorded_path_collect:
  "(case py_key url of None \<Rightarrow> ''''
    | Some u \<Rightarrow> (case map_of (inner_paths (collect_results outs []) pid) u of
                   None \<Rightarrow> '''' | Some local_path \<Rightarrow> local_path)) =
   recorded_path outs pid url"
  by (cases "py_key url")
     (simp_all add: recorded_path_def collect_results_paths inner_paths_empty split: list.splits)

text \<open>
  Claim C1, as amended.  For every sequence of well-formed records and every positive
  \<^verbatim>\<open>max_workers\<close>, whatever the outcome of each individual download,
  \<open>download_product_images\<close> returns all the records (no failed download aborts the
  batch).  A record for whose product id at least one download of the batch succeeded gains
  \<^verbatim>\<open>local_image_paths\<close>, a sequence parallel to its \<^verbatim>\<open>image_urls\<close> that holds, at each
  position, the path recorded for that URL under that product id (the path of the last
  successful download of the URL for that id), and the empty string where no download of
  the URL for that id succeeded.  A record for whose product id no download succeeded is
  returned as it was given, without \<^verbatim>\<open>local_image_paths\<close>.
\<close>

theorem download_product_images_local_paths:
  assumes wf: "list_all well_formed products" and mw: "0 < max_workers"
  shows "\<exists>products'.
           fst (download_product_images L E w products output_dir max_workers) = Inr products' \<and>
           length products' = length products \<and>
           (\<forall>n<length products. \<exists>p pid image_urls.
              products ! n = JObj p \<and>
              py_key (dict_get p ''product_id'' (JStr ''unknown'')) = Some pid \<and>
              py_iter (dict_get p ''image_urls'' (JList [])) = Inr image_urls \<and>
              products' ! n =
                (if key_downloaded (batch_outcomes L E w products output_dir) pid
                 then JObj (AList.update ''local_image_paths''
                        (JList (map (\<lambda>url. JStr (recorded_path
                           (batch_outcomes L E w products output_dir) pid url)) image_urls)) p)
                 else products ! n))"
proof (cases "products = []")
  case True
  then show ?thesis by (simp add: download_product_images_def)
next
  case False
  let ?outs = "batch_outcomes L E w products output_dir"
  let ?res = "collect_results ?outs []"
  from download_tasks_total [OF wf] obtain tasks where tasks: "download_tasks products = Inr tasks"
    by auto
  have "\<exists>products'. map_err (update_product ?res) products = Inr products'"
    using wf by (intro map_err_total update_product_total) (simp add: list_all_iff)
  then obtain products' where up: "map_err (update_product ?res) products = Inr products'"
    by auto
  obtain outs w1 where run: "run_tasks L E w output_dir tasks = (outs, w1)"
    by (cases "run_tasks L E w output_dir tasks")
  with tasks have outs: "?outs = outs" by (simp add: batch_outcomes_def)
  have ret: "fst (download_product_images L E w products output_dir max_workers) = Inr products'"
    using False tasks mw run up outs by (simp add: download_product_images_def)
  from map_err_Inr [OF up] have len: "length products' = length products"
    and nth: "\<And>n. n < length products \<Longrightarrow>
      update_product ?res (products ! n) = Inr (products' ! n)"
    by auto
  have each: "\<exists>p pid image_urls.
      products ! n = JObj p \<and>
      py_key (dict_get p ''product_id'' (JStr ''unknown'')) = Some pid \<and>
      py_iter (dict_get p ''image_urls'' (JList [])) = Inr image_urls \<and>
      products' ! n =
        (if key_downloaded ?outs pid
         then JObj (AList.update ''local_image_paths''
                (JList (map (\<lambda>url. JStr (recorded_path ?outs pid url)) image_urls)) p)
         else products ! n)"
    if n: "n < length products" for n
  proof -
    from wf n have "well_formed (products ! n)" by (simp add: list_all_length)
    then obtain p pid image_urls where p: "products ! n = JObj p"
      and pid: "py_key (dict_get p ''product_id'' (JStr ''unknown'')) = Some pid"
      and urls: "py_iter (dict_get p ''image_urls'' (JList [])) = Inr image_urls"
      by (auto simp: well_formed_def split: json.splits sum.splits)
    have key: "map_of ?res pid = None \<longleftrightarrow> \<not> key_downloaded ?outs pid"
      by (simp add: collect_results_key)
    have rec: "(case py_key url of None \<Rightarrow> ''''
          | Some u \<Rightarrow> (case map_of (inner_paths ?res pid) u of
                         None \<Rightarrow> '''' | Some local_path \<Rightarrow> local_path)) =
        recorded_path ?outs pid url" for url
      by (rule recorded_path_collect)
    have "products' ! n =
        (if key_downloaded ?outs pid
         then JObj (AList.update ''local_image_paths''
                (JList (map (\<lambda>url. JStr (recorded_path ?outs pid url)) image_urls)) p)
         else products ! n)"
    proof (cases "key_downloaded ?outs pid")
      case True
      with key have "map_of ?res pid \<noteq> None" by simp
      from update_product_paths [OF nth [OF n] p pid this urls] True show ?thesis
        by (simp add: rec)
    next
      case False
      with key have "map_of ?res pid = None" by simp
      from update_product_unchanged [OF nth [OF n] p pid this] False show ?thesis
        by simp
    qed
    with p pid urls show ?thesis by blast
  qed
  from ret len each show ?thesis by blast
qed

theorem download_product_images_local_paths_witness:
  "list_all well_formed sample_products \<and> (0::int) < 10 \<and>
   (\<exists>products'.
      fst (download_product_images sample_lib flaky_env empty_world sample_products
             ''images'' 10) = Inr products' \<and>
      length products' = length sample_products \<and>
      (\<forall>n<length sample_products. \<exists>p pid image_urls.
         sample_products ! n = JObj p \<and>
         py_key (dict_get p ''product_id'' (JStr ''unknown'')) = Some pid \<and>
         py_iter (dict_get p ''image_urls'' (JList [])) = Inr image_urls \<and>
         products' ! n =
           (if key_downloaded
                 (batch_outcomes sample_lib flaky_env empty_world sample_products ''images'') pid
            then JObj (AList.update ''local_image_paths''
                   (JList (map (\<lambda>url. JStr (recorded_path
                      (batch_outcomes sample_lib flaky_env empty_world sample_products ''images'')
                      pid url)) image_urls)) p)
            else sample_products ! n)))"
proof -
  have wf: "list_all well_formed sample_products"
    by (simp add: sample_products_def well_formed_def dict_get_def)
  have mw: "(0::int) < 10" by simp
  from download_product_images_local_paths [OF wf mw] wf mw show ?thesis
    by (intro conjI)
qed

lemma download_product_images_sample:
  "fst (download_product_images sample_lib flaky_env empty_world sample_products ''images'' 10) =
     Inr sample_fetched"
  by code_simp

lemma batch_outcomes_sample:
  "batch_outcomes sample_lib flaky_env empty_world sample_products ''images'' =
     [((JStr ''http://x/a.jpg'', JStr ''1'', 0), ''images/1_a.jpg''),
      ((JStr ''http://x/b.jpg'', JStr ''1'', 1), ''''),
      ((JStr ''http://x/c.jpg'', JStr ''2'', 0), ''images/2_c.jpg'')]"
  by code_simp

text \<open>
  Paths are recorded per product id and URL, not per position: when the same URL occurs
  twice in a record and only its first download succeeds, both positions hold the path.
\<close>

lemma download_product_images_duplicate_url:
  "fst (download_product_images sample_lib flaky_env empty_world
          [JObj [(''product_id'', JStr ''1''),
                 (''image_urls'', JList [JStr ''http://x/a.jpg'', JStr ''http://x/a.jpg''])]]
          ''images'' 10) =
     Inr [JObj [(''product_id'', JStr ''1''),
                (''image_urls'', JList [JStr ''http://x/a.jpg'', JStr ''http://x/a.jpg'']),
                (''local_image_paths'', JList [JStr ''images/1_a.jpg'', JStr ''images/1_a.jpg''])]] \<and>
   batch_outcomes sample_lib flaky_env empty_world
          [JObj [(''product_id'', JStr ''1''),
                 (''image_urls'', JList [JStr ''http://x/a.jpg'', JStr ''http://x/a.jpg''])]]
          ''images'' =
     [((JStr ''http://x/a.jpg'', JStr ''1'', 0), ''images/1_a.jpg''),
      ((JStr ''http://x/a.jpg'', JStr ''1'', 1), '''')]"
  by code_simp

text \<open>
  Claim C1, as stated, fails: in an environment where every request fails, the only
  download of the record below fails, and the record is returned without a
  \<^verbatim>\<open>local_image_paths\<close> field although it has one image URL.
\<close>

theorem download_product_images_no_paths_counterexample:
  "fst (download_product_images sample_lib sample_env empty_world [JObj lone_product]
          ''images'' 10) = Inr [JObj lone_product] \<and>
   map_of lone_product ''local_image_paths'' = None \<and>
   map_of lone_product ''image_urls'' = Some (JList [JStr ''http://x/a.jpg''])"
  by code_simp


section \<open>Properties of the Site Scraper\<close>

lemma scrape_loop_prefix:
  "\<exists>new. fst (scrape_loop L E w base_url sels links products) = products @ new"
proof (induction links arbitrary: w products)
  case Nil
  then show ?case by simp
next
  case (Cons link links)
  obtain r w1 where gp: "get_page L E w base_url link = (r, w1)"
    by (cases "get_page L E w base_url link")
  show ?case
  proof (cases r)
    case None
    with gp Cons.IH [of w1 products] show ?thesis by simp
  next
    case (Some soup)
    show ?thesis
    proof (cases "extract_product_data L soup sels = []")
      case True
      with gp Some Cons.IH [of w1 products] show ?thesis by simp
    next
      case False
      from Cons.IH [of w1 "products @
          [AList.update ''product_url'' (JStr link) (extract_product_data L soup sels)]"]
      obtain new where "fst (scrape_loop L E w1 base_url sels links (products @
          [AList.update ''product_url'' (JStr link) (extract_product_data L soup sels)])) =
          (products @ [AList.update ''product_url'' (JStr link)
             (extract_product_data L soup sels)]) @ new"
        by blast
      with gp Some False show ?thesis by (simp add: Let_def)
    qed
  qed
qed

lemma scrape_loop_provenance:
  assumes "p \<in> set (fst (scrape_loop L E w base_url sels links products))"
  shows "p \<in> set products \<or>
         (\<exists>link\<in>set links. \<exists>w0 soup.
            fst (get_page L E w0 base_url link) = Some soup \<and>
            extract_product_data L soup sels \<noteq> [] \<and>
            p = AList.update ''product_url'' (JStr link) (extract_product_data L soup sels))"
  using assms
proof (induction links arbitrary: w products)
  case Nil
  then show ?case by simp
next
  case (Cons link links)
  obtain r w1 where gp: "get_page L E w base_url link = (r, w1)"
    by (cases "get_page L E w base_url link")
  show ?case
  proof (cases r)
    case None
    with gp Cons.prems have "p \<in> set (fst (scrape_loop L E w1 base_url sels links products))"
      by simp
    from Cons.IH [OF this] show ?thesis by auto
  next
    case (Some soup)
    show ?thesis
    proof (cases "extract_product_data L soup sels = []")
      case True
      with gp Some Cons.prems
      have "p \<in> set (fst (scrape_loop L E w1 base_url sels links products))"
        by simp
      from Cons.IH [OF this] show ?thesis by auto
    next
      case False
      let ?new = "AList.update ''product_url'' (JStr link) (extract_product_data L soup sels)"
      from gp Some False Cons.prems
      have "p \<in> set (fst (scrape_loop L E w1 base_url sels links (products @ [?new])))"
        by (simp add: Let_def)
      from Cons.IH [OF this] consider "p \<in> set products" | "p = ?new"
        | "\<exists>link\<in>set links. \<exists>w0 soup.
            fst (get_page L E w0 base_url link) = Some soup \<and>
            extract_product_data L soup sels \<noteq> [] \<and>
            p = AList.update ''product_url'' (JStr link) (extract_product_data L soup sels)"
        by auto
      then show ?thesis
      proof cases
        case 2
        have "fst (get_page L E w base_url link) = Some soup" using gp Some by simp
        with 2 False show ?thesis by auto
      qed auto
    qed
  qed
qed

lemma links_loop_urljoin:
  assumes "links_loop L base_url elements acc = Some links" and "l \<in> set links"
  shows "l \<in> set acc \<or> (\<exists>href. href \<noteq> [] \<and> urljoin L base_url href = Some l)"
  using assms
proof (induction elements arbitrary: acc)
  case Nil
  then show ?case by simp
next
  case (Cons e elements)
  show ?case
  proof (cases "map_of (el_attrs e) ''href''")
    case None
    with Cons.prems Cons.IH [of acc] show ?thesis by simp
  next
    case (Some href)
    show ?thesis
    proof (cases "href = []")
      case True
      with Some Cons.prems Cons.IH [of acc] show ?thesis by simp
    next
      case False
      with Some Cons.prems obtain full where full: "urljoin L base_url href = Some full"
        and rest: "links_loop L base_url elements (acc @ [full]) = Some links"
        by (auto split: option.splits)
      from Cons.IH [OF rest Cons.prems(2)] full False show ?thesis by auto
    qed
  qed
qed

lemma extract_product_links_urljoin:
  assumes "l \<in> set (extract_product_links L base_url soup selector)"
  shows "\<exists>href. href \<noteq> [] \<and> urljoin L base_url href = Some l"
proof -
  from assms obtain elements links where
    "links_loop L base_url elements [] = Some links" "l \<in> set links"
    by (cases "soup_select L soup selector"; cases "links_loop L base_url
          (the (soup_select L soup selector)) []")
       (auto simp: extract_product_links_def)
  from links_loop_urljoin [OF this] show ?thesis by simp
qed

lemma set_slice_to: "set (slice_to n xs) \<subseteq> set xs"
  by (auto simp: slice_to_def dest: in_set_takeD)

lemma data_loop_nothing:
  "list_all (\<lambda>(field, selector). soup_select L soup selector = Some []) sels \<Longrightarrow>
   data_loop L soup sels product = Some product"
  by (induction sels arbitrary: product) auto

lemma extract_product_data_nothing:
  "list_all (\<lambda>(field, selector). soup_select L soup selector = Some []) sels \<Longrightarrow>
   extract_product_data L soup sels = []"
  by (simp add: extract_product_data_def data_loop_nothing)

lemma map_of_update_same: "map_of (AList.update k v al) k = Some v"
  by (simp add: update_conv')

lemma scrape_loop_records:
  "fst (scrape_loop L E w base_url sels links products) =
   products @ concat (map (link_records L sels) (fetch_pages L E w base_url links))"
proof (induction links arbitrary: w products)
  case Nil
  then show ?case by simp
next
  case (Cons link links)
  obtain r w1 where gp: "get_page L E w base_url link = (r, w1)"
    by (cases "get_page L E w base_url link")
  show ?case
  proof (cases r)
    case None
    with gp Cons.IH [of w1 products] show ?thesis
      by (simp add: link_records_def)
  next
    case (Some soup)
    show ?thesis
    proof (cases "extract_product_data L soup sels = []")
      case True
      with gp Some Cons.IH [of w1 products] show ?thesis
        by (simp add: link_records_def)
    next
      case False
      with gp Some Cons.IH [of w1 "products @
          [AList.update ''product_url'' (JStr link) (extract_product_data L soup sels)]"]
      show ?thesis
        by (simp add: link_records_def Let_def)
    qed
  qed
qed

lemma scrape_loop_skips_failed_page:
  assumes "fst (get_page L E w base_url link) = None"
  shows "scrape_loop L E w base_url sels (link # links) products =
         scrape_loop L E (snd (get_page L E w base_url link)) base_url sels links products"
  using assms by (cases "get_page L E w base_url link") simp

text \<open>
  Claim C7.  When the listing page cannot be fetched, \<open>scrape_products\<close> returns the empty
  list.  When it can, \<open>scrape_products\<close> fetches the pages of the product links (cut to
  \<^verbatim>\<open>max_products\<close>) one after the other and returns exactly the concatenation, in link
  order, of what each link contributes; a link whose page cannot be fetched contributes
  nothing, so that product alone is skipped and the records of the links before and after
  it are all returned.
\<close>

theorem scrape_products_fetch_failures:
  "(fst (get_page L E w base_url category_url) = None \<longrightarrow>
      fst (scrape_products L E w base_url category_url product_link_selector sels
             max_products) = []) \<and>
   (fst (get_page L E w base_url category_url) = Some category_soup \<longrightarrow>
      fst (scrape_products L E w base_url category_url product_link_selector sels
             max_products) =
      concat (map (link_records L sels)
        (fetch_pages L E (snd (get_page L E w base_url category_url)) base_url
           (slice_to max_products
              (extract_product_links L base_url category_soup product_link_selector))))) \<and>
   link_records L sels (link, None) = []"
proof (intro conjI impI)
  assume "fst (get_page L E w base_url category_url) = None"
  then show "fst (scrape_products L E w base_url category_url product_link_selector sels
      max_products) = []"
    by (cases "get_page L E w base_url category_url") (simp add: scrape_products_def)
next
  assume "fst (get_page L E w base_url category_url) = Some category_soup"
  then show "fst (scrape_products L E w base_url category_url product_link_selector sels
      max_products) =
      concat (map (link_records L sels)
        (fetch_pages L E (snd (get_page L E w base_url category_url)) base_url
           (slice_to max_products
              (extract_product_links L base_url category_soup product_link_selector))))"
    by (cases "get_page L E w base_url category_url")
       (simp add: scrape_products_def scrape_loop_records)
next
  show "link_records L sels (link, None) = []"
    by (simp add: link_records_def)
qed

theorem scrape_products_fetch_failures_witness:
  "fst (get_page shop_lib sample_env empty_world ''http://shop'' ''/products'') = None \<and>
   fst (scrape_products shop_lib sample_env empty_world ''http://shop'' ''/products''
          ''a.product'' shop_selectors 100) = [] \<and>
   fst (get_page shop_lib shop_env empty_world ''http://shop'' ''/products'') =
     Some ''listing'' \<and>
   fetch_pages shop_lib shop_env
     (snd (get_page shop_lib shop_env empty_world ''http://shop'' ''/products''))
     ''http://shop''
     (slice_to 100 (extract_product_links shop_lib ''http://shop'' ''listing'' ''a.product'')) =
     [(''http://shop/p1'', Some ''page1''), (''http://shop/p2'', None),
      (''http://shop/p3'', Some ''page3''), (''http://shop/p4'', Some ''page4'')] \<and>
   fst (scrape_products shop_lib shop_env empty_world ''http://shop'' ''/products''
          ''a.product'' shop_selectors 100) =
     [[(''name'', JStr ''Widget''),
       (''image_urls'', JList [JStr ''/a.jpg'', JStr ''/b.jpg'']),
       (''product_url'', JStr ''http://shop/p1'')],
      [(''name'', JStr ''Gadget''), (''product_url'', JStr ''http://shop/p3'')]]"
proof -
  let ?pages = "fetch_pages shop_lib shop_env
     (snd (get_page shop_lib shop_env empty_world ''http://shop'' ''/products''))
     ''http://shop''
     (slice_to 100 (extract_product_links shop_lib ''http://shop'' ''listing'' ''a.product''))"
  have c: "fst (get_page shop_lib sample_env empty_world ''http://shop'' ''/products'') = None"
    by code_simp
  have g: "fst (get_page shop_lib shop_env empty_world ''http://shop'' ''/products'') =
     Some ''listing''"
    by code_simp
  have pages: "?pages =
     [(''http://shop/p1'', Some ''page1''), (''http://shop/p2'', None),
      (''http://shop/p3'', Some ''page3''), (''http://shop/p4'', Some ''page4'')]"
    by code_simp
  from scrape_products_fetch_failures
    [of shop_lib sample_env empty_world "''http://shop''" "''/products''"] c
  have 1: "fst (scrape_products shop_lib sample_env empty_world ''http://shop'' ''/products''
          ''a.product'' shop_selectors 100) = []"
    by blast
  from scrape_products_fetch_failures
    [of shop_lib shop_env empty_world "''http://shop''" "''/products''" _ _ _ "''listing''"] g
  have "fst (scrape_products shop_lib shop_env empty_world ''http://shop'' ''/products''
          ''a.product'' shop_selectors 100) =
      concat (map (link_records shop_lib shop_selectors) ?pages)"
    by blast
  also have "concat (map (link_records shop_lib shop_selectors) ?pages) =
     [[(''name'', JStr ''Widget''),
       (''image_urls'', JList [JStr ''/a.jpg'', JStr ''/b.jpg'']),
       (''product_url'', JStr ''http://shop/p1'')],
      [(''name'', JStr ''Gadget''), (''product_url'', JStr ''http://shop/p3'')]]"
    by code_simp
  finally have 2: "fst (scrape_products shop_lib shop_env empty_world ''http://shop''
      ''/products'' ''a.product'' shop_selectors 100) =
     [[(''name'', JStr ''Widget''),
       (''image_urls'', JList [JStr ''/a.jpg'', JStr ''/b.jpg'']),
       (''product_url'', JStr ''http://shop/p1'')],
      [(''name'', JStr ''Gadget''), (''product_url'', JStr ''http://shop/p3'')]]" .
  from c 1 g pages 2 show ?thesis by (intro conjI)
qed

lemma scrape_products_shop:
  "fst (scrape_products shop_lib shop_env empty_world ''http://shop'' ''/products''
          ''a.product'' shop_selectors 100) =
     [[(''name'', JStr ''Widget''),
       (''image_urls'', JList [JStr ''/a.jpg'', JStr ''/b.jpg'']),
       (''product_url'', JStr ''http://shop/p1'')],
      [(''name'', JStr ''Gadget''), (''product_url'', JStr ''http://shop/p3'')]]"
  by code_simp

lemma scrape_products_provenance:
  assumes "p \<in> set (fst (scrape_products L E w base_url category_url product_link_selector
      sels max_products))"
  shows "\<exists>link\<in>set (product_links L E w base_url category_url product_link_selector
            max_products).
           map_of p ''product_url'' = Some (JStr link) \<and>
           (\<exists>href. urljoin L base_url href = Some link) \<and>
           (\<exists>w0 soup. fst (get_page L E w0 base_url link) = Some soup \<and>
              extract_product_data L soup sels \<noteq> [] \<and>
              p = AList.update ''product_url'' (JStr link) (extract_product_data L soup sels))"
proof -
  obtain r w1 where gp: "get_page L E w base_url category_url = (r, w1)"
    by (cases "get_page L E w base_url category_url")
  from assms gp obtain soup where r: "r = Some soup"
    by (cases r) (auto simp: scrape_products_def)
  let ?links = "slice_to max_products
      (extract_product_links L base_url soup product_link_selector)"
  have pl: "product_links L E w base_url category_url product_link_selector max_products =
      ?links"
    using gp r by (simp add: product_links_def)
  from assms gp r have "p \<in> set (fst (scrape_loop L E w1 base_url sels ?links []))"
    by (simp add: scrape_products_def)
  from scrape_loop_provenance [OF this]
  have "\<exists>link\<in>set ?links. \<exists>w0 soup.
      fst (get_page L E w0 base_url link) = Some soup \<and>
      extract_product_data L soup sels \<noteq> [] \<and>
      p = AList.update ''product_url'' (JStr link) (extract_product_data L soup sels)"
    by simp
  then obtain link w0 page where
    link: "link \<in> set ?links" and
    page: "fst (get_page L E w0 base_url link) = Some page"
      "extract_product_data L page sels \<noteq> []"
      "p = AList.update ''product_url'' (JStr link) (extract_product_data L page sels)"
    by blast
  from link have "link \<in> set (extract_product_links L base_url soup
      product_link_selector)"
    by (rule subsetD [OF set_slice_to])
  from extract_product_links_urljoin [OF this]
  have href: "\<exists>href. urljoin L base_url href = Some link" by blast
  have url: "map_of p ''product_url'' = Some (JStr link)"
    by (simp only: page(3) map_of_update_same)
  have src: "\<exists>w0 soup. fst (get_page L E w0 base_url link) = Some soup \<and>
      extract_product_data L soup sels \<noteq> [] \<and>
      p = AList.update ''product_url'' (JStr link) (extract_product_data L soup sels)"
    using page by blast
  show ?thesis
    unfolding pl
    by (rule bexI [OF _ link]) (intro conjI url href src)
qed

text \<open>
  Claim C10.  A product page that is fetched successfully and on which every configured
  selector selects nothing yields the empty record, and the loop drops it: it goes on with
  the remaining links and the same products.  Every record that \<open>scrape_products\<close>
  returns has a \<^verbatim>\<open>product_url\<close> field equal to one of the product links of the scrape, an
  absolute URL produced by \<^verbatim>\<open>urljoin\<close>, and the record is the non-empty data extracted
  from a page fetched at that link, with \<^verbatim>\<open>product_url\<close> set to the link.
\<close>

theorem scrape_products_records:
  "(fst (get_page L E w base_url link) = Some soup \<and>
    list_all (\<lambda>(field, selector). soup_select L soup selector = Some []) sels \<longrightarrow>
      extract_product_data L soup sels = [] \<and>
      scrape_loop L E w base_url sels (link # links) products =
      scrape_loop L E (snd (get_page L E w base_url link)) base_url sels links products) \<and>
   (\<forall>p\<in>set (fst (scrape_products L E w base_url category_url product_link_selector sels
                    max_products)).
      \<exists>link\<in>set (product_links L E w base_url category_url product_link_selector
                   max_products).
        map_of p ''product_url'' = Some (JStr link) \<and>
        (\<exists>href. urljoin L base_url href = Some link) \<and>
        (\<exists>w0 soup. fst (get_page L E w0 base_url link) = Some soup \<and>
           extract_product_data L soup sels \<noteq> [] \<and>
           p = AList.update ''product_url'' (JStr link) (extract_product_data L soup sels)))"
proof (intro conjI impI ballI)
  assume a: "fst (get_page L E w base_url link) = Some soup \<and>
    list_all (\<lambda>(field, selector). soup_select L soup selector = Some []) sels"
  then show e: "extract_product_data L soup sels = []"
    by (simp add: extract_product_data_nothing)
  from a e show "scrape_loop L E w base_url sels (link # links) products =
      scrape_loop L E (snd (get_page L E w base_url link)) base_url sels links products"
    by (cases "get_page L E w base_url link") simp
next
  fix p
  assume "p \<in> set (fst (scrape_products L E w base_url category_url product_link_selector
      sels max_products))"
  then show "\<exists>link\<in>set (product_links L E w base_url category_url product_link_selector
                   max_products).
        map_of p ''product_url'' = Some (JStr link) \<and>
        (\<exists>href. urljoin L base_url href = Some link) \<and>
        (\<exists>w0 soup. fst (get_page L E w0 base_url link) = Some soup \<and>
           extract_product_data L soup sels \<noteq> [] \<and>
           p = AList.update ''product_url'' (JStr link) (extract_product_data L soup sels))"
    by (rule scrape_products_provenance)
qed

theorem scrape_products_records_witness:
  "fst (get_page shop_lib shop_env empty_world ''http://shop'' ''http://shop/p4'') =
     Some ''page4'' \<and>
   list_all (\<lambda>(field, selector). soup_select shop_lib ''page4'' selector = Some [])
     shop_selectors \<and>
   extract_product_data shop_lib ''page4'' shop_selectors = [] \<and>
   scrape_loop shop_lib shop_env empty_world ''http://shop'' shop_selectors
     [''http://shop/p4'', ''http://shop/p3''] [] =
   scrape_loop shop_lib shop_env
     (snd (get_page shop_lib shop_env empty_world ''http://shop'' ''http://shop/p4''))
     ''http://shop'' shop_selectors [''http://shop/p3''] [] \<and>
   [(''name'', JStr ''Gadget''), (''product_url'', JStr ''http://shop/p3'')] \<in>
     set (fst (scrape_products shop_lib shop_env empty_world ''http://shop'' ''/products''
                 ''a.product'' shop_selectors 100)) \<and>
   (\<exists>link\<in>set (product_links shop_lib shop_env empty_world ''http://shop'' ''/products''
                  ''a.product'' 100).
      map_of [(''name'', JStr ''Gadget''), (''product_url'', JStr ''http://shop/p3'')]
        ''product_url'' = Some (JStr link))"
proof -
  have g: "fst (get_page shop_lib shop_env empty_world ''http://shop'' ''http://shop/p4'') =
     Some ''page4''"
    by code_simp
  have n: "list_all (\<lambda>(field, selector). soup_select shop_lib ''page4'' selector = Some [])
     shop_selectors"
    by code_simp
  have m: "[(''name'', JStr ''Gadget''), (''product_url'', JStr ''http://shop/p3'')] \<in>
     set (fst (scrape_products shop_lib shop_env empty_world ''http://shop'' ''/products''
                 ''a.product'' shop_selectors 100))"
    by (simp add: scrape_products_shop)
  from scrape_products_records
    [of shop_lib shop_env empty_world "''http://shop''" "''http://shop/p4''" "''page4''"
        shop_selectors] g n
  have 1: "extract_product_data shop_lib ''page4'' shop_selectors = [] \<and>
   scrape_loop shop_lib shop_env empty_world ''http://shop'' shop_selectors
     [''http://shop/p4'', ''http://shop/p3''] [] =
   scrape_loop shop_lib shop_env
     (snd (get_page shop_lib shop_env empty_world ''http://shop'' ''http://shop/p4''))
     ''http://shop'' shop_selectors [''http://shop/p3''] []"
    by blast
  from scrape_products_records
    [of shop_lib shop_env empty_world "''http://shop''" _ _ shop_selectors _ _
        "''/products''" "''a.product''" 100] m
  have 2: "\<exists>link\<in>set (product_links shop_lib shop_env empty_world ''http://shop'' ''/products''
                  ''a.product'' 100).
      map_of [(''name'', JStr ''Gadget''), (''product_url'', JStr ''http://shop/p3'')]
        ''product_url'' = Some (JStr link)"
    by blast
  from g n 1 m 2 show ?thesis by blast
qed

end
